theory Spec2Isabelle
  imports Complex_Main
begin

section \<open>Data model (shared/types.ts)\<close>

text \<open>
  The interfaces of \<^verbatim>\<open>shared/types.ts\<close> as records. Field names carry a prefix where
  the TypeScript name is shared by several interfaces or clashes with a HOL constant
  (\<^verbatim>\<open>id\<close>, \<^verbatim>\<open>size\<close>, \<^verbatim>\<open>metadata\<close>, \<^verbatim>\<open>content\<close>). Dates are natural numbers
  (a clock reading), buffers are byte lists, embedding vectors are lists of reals.
\<close>

type_synonym buffer = "nat list"
type_synonym vector = "real list"

record DocumentMetadata =
  doc_id :: string
  doc_filename :: string
  doc_url :: string
  doc_path :: string
  doc_modified :: nat
  doc_size :: nat
  doc_contentType :: string
  doc_library :: string

record ChunkMetadata =
  documentId :: string
  filename :: string
  url :: string
  chunkIndex :: nat
  totalChunks :: nat

record DocumentChunk =
  chunk_content :: string
  chunk_metadata :: ChunkMetadata

record ProcessedDocument =
  pd_metadata :: DocumentMetadata
  pd_content :: string
  pd_chunks :: "DocumentChunk list"

record IndexStats =
  totalDocuments :: nat
  stats_totalChunks :: nat
  lastUpdated :: nat
  indexSize :: nat

record CrawlError =
  err_filename :: string
  err_error :: string
  err_timestamp :: nat

text \<open>A Langchain \<^verbatim>\<open>Document\<close>: page content and the chunk's metadata.\<close>

record Document =
  pageContent :: string
  metadata :: ChunkMetadata

text \<open>
  A \<^verbatim>\<open>FaissStore\<close>: the embedded vectors and the documents of its docstore, in
  insertion order.
\<close>

record FaissStore =
  vectors :: "vector list"
  docstore :: "Document list"

section \<open>Errors\<close>

text \<open>
  The code raises plain \<^verbatim>\<open>Error(message)\<close> objects, \<^verbatim>\<open>AppError(message, status)\<close>
  objects in the HTTP routes, and Node's system errors, which carry a \<^verbatim>\<open>code\<close>.
\<close>

datatype errno = EEXIST | ENOENT | ENOTEMPTY | EACCES | EIO | ENOSPC

datatype error = Error string | AppError string nat | SysError errno

definition indexPath :: string where
  "indexPath = ''./data/faiss-index''"

text \<open>The names the specification gives to the errors the code raises.\<close>

definition LockAcquisitionTimeoutError :: error where
  "LockAcquisitionTimeoutError = Error ''Failed to acquire lock after maximum retries''"

definition IndexNotFoundError :: error where
  "IndexNotFoundError = Error (''Index not found at '' @ indexPath)"

definition IndexUnavailableError :: error where
  "IndexUnavailableError = Error ''Vector store not loaded''"

definition BuildAlreadyInProgressError :: error where
  "BuildAlreadyInProgressError = AppError ''A crawl is already in progress'' 409"

section \<open>The filesystem under the index path\<close>

text \<open>
  A directory of the index store holds the index artifacts written by
  \<^verbatim>\<open>FaissStore.save\<close> (\<^verbatim>\<open>faiss.index\<close> and \<^verbatim>\<open>docstore.json\<close>, here one field), the
  sidecar \<^verbatim>\<open>stats.json\<close> and the sentinel \<^verbatim>\<open>.lock\<close>, whose content is a process id.
  The lock file path is \<^verbatim>\<open>path.join(config.faiss.indexPath, '.lock')\<close>: the lock lives
  inside the production directory.
\<close>

datatype sidecar = ValidStats IndexStats | CorruptStats

record dir =
  index_data :: "FaissStore option"
  stats_json :: "sidecar option"
  lock_file :: "nat option"

definition empty_dir :: dir where
  "empty_dir = \<lparr>index_data = None, stats_json = None, lock_file = None\<rparr>"

definition is_empty_dir :: "dir \<Rightarrow> bool" where
  "is_empty_dir d = (index_data d = None \<and> stats_json d = None \<and> lock_file d = None)"

text \<open>
  The three sibling paths: \<^verbatim>\<open>indexPath\<close>, \<^verbatim>\<open>indexPath + '.tmp'\<close> and
  \<^verbatim>\<open>indexPath + '.backup'\<close>; \<open>None\<close> is an absent path.
\<close>

record fs =
  production :: "dir option"
  temp :: "dir option"
  backup :: "dir option"

text \<open>
  The state of one process and of the disk it works on: the disk, every disk state that
  has existed since the start (one entry per filesystem operation that changed the
  disk: what another process could see at some instant), the calls observed, and the
  fields of the \<^verbatim>\<open>VectorStore\<close> instance. \<open>listeners\<close> counts the \<^verbatim>\<open>'indexUpdated'\<close>
  listeners registered on the instance and \<open>reload_calls\<close> the invocations of the
  reload callback.
\<close>

datatype event = LockAcquired | LockWait nat | ReleaseLockCalled | IndexUpdated IndexStats

record state =
  disk :: fs
  history :: "fs list"
  events :: "event list"
  pid :: nat
  vectorStore :: "FaissStore option"
  stats :: "IndexStats option"
  listeners :: nat
  reload_calls :: nat

definition put_disk :: "fs \<Rightarrow> state \<Rightarrow> state" where
  "put_disk d st = st\<lparr>disk := d, history := history st @ [d]\<rparr>"

definition log_event :: "event \<Rightarrow> state \<Rightarrow> state" where
  "log_event e st = st\<lparr>events := events st @ [e]\<rparr>"

subsection \<open>Operations that may fail\<close>

text \<open>
  An operation takes the state and returns a result or an error, and the new state.
  Every filesystem or library call can fail: \<open>faults\<close> says which call fails with
  which system error; a call that fails leaves the disk as it was.
\<close>

type_synonym 'a io = "state \<Rightarrow> (error + 'a) \<times> state"

datatype io_op =
  MkdirIndexDir | WriteLock | MkdirParent | SaveTemp | WriteStats | RmBackup
  | RenameProdBackup | RenameTempProd | LoadIndex | ReadStats | UnlinkLock

type_synonym faults = "io_op \<Rightarrow> errno option"

definition no_faults :: faults where
  "no_faults = (\<lambda>_. None)"

definition bind_io :: "'a io \<Rightarrow> ('a \<Rightarrow> 'b io) \<Rightarrow> 'b io" where
  "bind_io m f = (\<lambda>st. case m st of (Inl e, st') \<Rightarrow> (Inl e, st') | (Inr a, st') \<Rightarrow> f a st')"

definition catch_io :: "'a io \<Rightarrow> (error \<Rightarrow> 'a io) \<Rightarrow> 'a io" where
  "catch_io m h = (\<lambda>st. case m st of (Inl e, st') \<Rightarrow> h e st' | (Inr a, st') \<Rightarrow> (Inr a, st'))"

definition attempt :: "faults \<Rightarrow> io_op \<Rightarrow> 'a io \<Rightarrow> 'a io" where
  "attempt F op m = (\<lambda>st. case F op of Some e \<Rightarrow> (Inl (SysError e), st) | None \<Rightarrow> m st)"

text \<open>\<^verbatim>\<open>fs.mkdir(path.dirname(lockFilePath), {recursive: true})\<close>: creates the production
  directory when it is absent.\<close>

definition mkdir_indexPath :: "faults \<Rightarrow> unit io" where
  "mkdir_indexPath F = attempt F MkdirIndexDir (\<lambda>st.
     (Inr (), (case production (disk st) of
                 None \<Rightarrow> put_disk ((disk st)\<lparr>production := Some empty_dir\<rparr>) st
               | Some d \<Rightarrow> st)))"

text \<open>\<^verbatim>\<open>fs.writeFile(lockFilePath, pid, {flag: 'wx'})\<close>: exclusive creation, \<^verbatim>\<open>EEXIST\<close>
  when the file is there.\<close>

definition writeFile_lock_wx :: "faults \<Rightarrow> unit io" where
  "writeFile_lock_wx F = attempt F WriteLock (\<lambda>st.
     (case production (disk st) of
        None \<Rightarrow> (Inl (SysError ENOENT), st)
      | Some d \<Rightarrow>
          (case lock_file d of
             Some p \<Rightarrow> (Inl (SysError EEXIST), st)
           | None \<Rightarrow> (Inr (), put_disk ((disk st)\<lparr>production := Some (d\<lparr>lock_file := Some (pid st)\<rparr>)\<rparr>) st))))"

text \<open>\<^verbatim>\<open>fs.mkdir(path.dirname(indexPath), {recursive: true})\<close>: the parent directory is
  outside the three paths.\<close>

definition mkdir_parent :: "faults \<Rightarrow> unit io" where
  "mkdir_parent F = attempt F MkdirParent (\<lambda>st. (Inr (), st))"

text \<open>
  \<^verbatim>\<open>vectorStore.save(tempPath)\<close> is library code: it creates the directory if needed and
  then writes the index artifacts into it. A store to which no vector was ever added
  (built from no documents) has no index yet; for it the call fails, after creating the
  directory, with \<^verbatim>\<open>Vector store not initialised yet\<close>.
\<close>

definition NotInitialisedError :: error where
  "NotInitialisedError =
     Error ''Vector store not initialised yet. Try calling `fromTexts`, `fromDocuments` or `fromIndex` first.''"

definition faiss_save_temp :: "faults \<Rightarrow> FaissStore \<Rightarrow> unit io" where
  "faiss_save_temp F g = attempt F SaveTemp (\<lambda>st.
     if vectors g = [] then
       (Inl NotInitialisedError,
        (case temp (disk st) of
           None \<Rightarrow> put_disk ((disk st)\<lparr>temp := Some empty_dir\<rparr>) st
         | Some d \<Rightarrow> st))
     else
       (Inr (), put_disk ((disk st)\<lparr>temp :=
          Some ((case temp (disk st) of None \<Rightarrow> empty_dir | Some d \<Rightarrow> d)\<lparr>index_data := Some g\<rparr>)\<rparr>) st))"

text \<open>\<^verbatim>\<open>fs.writeFile(path.join(tempPath, 'stats.json'), JSON.stringify(stats))\<close>.\<close>

definition writeFile_stats :: "faults \<Rightarrow> IndexStats \<Rightarrow> unit io" where
  "writeFile_stats F s = attempt F WriteStats (\<lambda>st.
     (case temp (disk st) of
        None \<Rightarrow> (Inl (SysError ENOENT), st)
      | Some d \<Rightarrow> (Inr (), put_disk ((disk st)\<lparr>temp := Some (d\<lparr>stats_json := Some (ValidStats s)\<rparr>)\<rparr>) st)))"

text \<open>\<^verbatim>\<open>fs.rm(backupPath, {recursive: true, force: true})\<close>.\<close>

definition rm_backup :: "faults \<Rightarrow> unit io" where
  "rm_backup F = attempt F RmBackup (\<lambda>st. (Inr (), put_disk ((disk st)\<lparr>backup := None\<rparr>) st))"

text \<open>
  \<^verbatim>\<open>fs.rename\<close> of a directory: the source must exist, and an existing target must be an
  empty directory (\<^verbatim>\<open>ENOTEMPTY\<close> otherwise). One atomic step.
\<close>

definition rename_dir :: "dir option \<Rightarrow> dir option \<Rightarrow> errno + dir" where
  "rename_dir src dst =
     (case src of
        None \<Rightarrow> Inl ENOENT
      | Some d \<Rightarrow>
          (case dst of
             None \<Rightarrow> Inr d
           | Some t \<Rightarrow> if is_empty_dir t then Inr d else Inl ENOTEMPTY))"

definition rename_prod_backup :: "faults \<Rightarrow> unit io" where
  "rename_prod_backup F = attempt F RenameProdBackup (\<lambda>st.
     (case rename_dir (production (disk st)) (backup (disk st)) of
        Inl e \<Rightarrow> (Inl (SysError e), st)
      | Inr d \<Rightarrow> (Inr (), put_disk ((disk st)\<lparr>production := None, backup := Some d\<rparr>) st)))"

definition rename_temp_prod :: "faults \<Rightarrow> unit io" where
  "rename_temp_prod F = attempt F RenameTempProd (\<lambda>st.
     (case rename_dir (temp (disk st)) (production (disk st)) of
        Inl e \<Rightarrow> (Inl (SysError e), st)
      | Inr d \<Rightarrow> (Inr (), put_disk ((disk st)\<lparr>temp := None, production := Some d\<rparr>) st)))"

text \<open>
  \<^verbatim>\<open>FaissStore.load(indexPath, embeddings)\<close> is library code: it reads the index
  artifacts of the directory and fails with \<^verbatim>\<open>ENOENT\<close> when they are not there.
\<close>

definition faiss_load :: "faults \<Rightarrow> FaissStore io" where
  "faiss_load F = attempt F LoadIndex (\<lambda>st.
     (case production (disk st) of
        None \<Rightarrow> (Inl (SysError ENOENT), st)
      | Some d \<Rightarrow>
          (case index_data d of
             None \<Rightarrow> (Inl (SysError ENOENT), st)
           | Some g \<Rightarrow> (Inr g, st))))"

definition lock_exists :: "fs \<Rightarrow> bool" where
  "lock_exists f = (case production f of None \<Rightarrow> False | Some d \<Rightarrow> lock_file d \<noteq> None)"

section \<open>VectorStore (shared/vector-store.ts)\<close>

subsection \<open>acquireLock and releaseLock\<close>

definition sleep :: "nat \<Rightarrow> state \<Rightarrow> state" where
  "sleep ms st = log_event (LockWait ms) st"

function acquireLock_loop :: "faults \<Rightarrow> nat \<Rightarrow> nat \<Rightarrow> nat \<Rightarrow> unit io" where
  "acquireLock_loop F maxRetries retryDelay retries st =
     (if retries < maxRetries then
        (case bind_io (mkdir_indexPath F) (\<lambda>_. writeFile_lock_wx F) st of
           (Inr u, st1) \<Rightarrow> (Inr (), log_event LockAcquired st1)
         | (Inl e, st1) \<Rightarrow>
             if e = SysError EEXIST
             then acquireLock_loop F maxRetries retryDelay (retries + 1) (sleep retryDelay st1)
             else (Inl e, st1))
      else (Inl (Error ''Failed to acquire lock after maximum retries''), st))"
  by pat_completeness auto
termination
  by (relation "measure (\<lambda>(F, maxRetries, retryDelay, retries, st). maxRetries - retries)") auto

declare acquireLock_loop.simps [simp del]

definition acquireLock :: "faults \<Rightarrow> nat \<Rightarrow> nat \<Rightarrow> unit io" where
  "acquireLock F maxRetries retryDelay = acquireLock_loop F maxRetries retryDelay 0"

text \<open>\<^verbatim>\<open>releaseLock\<close> never raises: a failing \<^verbatim>\<open>unlink\<close> is logged and swallowed.\<close>

definition releaseLock :: "faults \<Rightarrow> state \<Rightarrow> state" where
  "releaseLock F st =
     (let st0 = log_event ReleaseLockCalled st in
      if lock_exists (disk st0) then
        (case F UnlinkLock of
           Some e \<Rightarrow> st0
         | None \<Rightarrow>
             (case production (disk st0) of
                None \<Rightarrow> st0
              | Some d \<Rightarrow> put_disk ((disk st0)\<lparr>production := Some (d\<lparr>lock_file := None\<rparr>)\<rparr>) st0))
      else st0)"

subsection \<open>load\<close>

text \<open>\<^verbatim>\<open>loadStats\<close>: reads the sidecar when it exists; any failure sets the stats to null.\<close>

definition loadStats :: "faults \<Rightarrow> state \<Rightarrow> state" where
  "loadStats F st =
     (case production (disk st) of
        None \<Rightarrow> st
      | Some d \<Rightarrow>
          (case stats_json d of
             None \<Rightarrow> st
           | Some f \<Rightarrow>
               (case F ReadStats of
                  Some e \<Rightarrow> st\<lparr>stats := None\<rparr>
                | None \<Rightarrow>
                    (case f of
                       ValidStats s \<Rightarrow> st\<lparr>stats := Some s\<rparr>
                     | CorruptStats \<Rightarrow> st\<lparr>stats := None\<rparr>))))"

definition load_body :: "faults \<Rightarrow> FaissStore io" where
  "load_body F =
     bind_io (acquireLock F 30 1000) (\<lambda>_ st.
       if production (disk st) = None
       then (Inl (Error (''Index not found at '' @ indexPath)), st)
       else bind_io (faiss_load F) (\<lambda>g st1.
              (Inr g, releaseLock F (loadStats F (st1\<lparr>vectorStore := Some g\<rparr>)))) st)"

definition load :: "faults \<Rightarrow> FaissStore io" where
  "load F = catch_io (load_body F) (\<lambda>e st. (Inl e, releaseLock F st))"

subsection \<open>save\<close>

definition emit_indexUpdated :: "IndexStats \<Rightarrow> state \<Rightarrow> state" where
  "emit_indexUpdated s st =
     (log_event (IndexUpdated s) st)\<lparr>reload_calls := reload_calls st + listeners st\<rparr>"

definition swap_out :: "faults \<Rightarrow> unit io" where
  "swap_out F = (\<lambda>st.
     if production (disk st) \<noteq> None then
       bind_io (\<lambda>st1. if backup (disk st1) \<noteq> None then rm_backup F st1 else (Inr (), st1))
               (\<lambda>_. rename_prod_backup F) st
     else (Inr (), st))"

definition save_body :: "faults \<Rightarrow> FaissStore \<Rightarrow> IndexStats \<Rightarrow> unit io" where
  "save_body F g s =
     bind_io (acquireLock F 30 1000) (\<lambda>_.
     bind_io (mkdir_parent F) (\<lambda>_.
     bind_io (faiss_save_temp F g) (\<lambda>_.
     bind_io (writeFile_stats F s) (\<lambda>_.
     bind_io (swap_out F) (\<lambda>_.
     bind_io (rename_temp_prod F) (\<lambda>_ st.
       (Inr (), emit_indexUpdated s
                  (releaseLock F (st\<lparr>vectorStore := Some g, stats := Some s\<rparr>)))))))))"

definition save :: "faults \<Rightarrow> FaissStore \<Rightarrow> IndexStats \<Rightarrow> unit io" where
  "save F g s = catch_io (save_body F g s) (\<lambda>e st. (Inl e, releaseLock F st))"

subsection \<open>getVectorStore, getStats, indexExists\<close>

definition getVectorStore :: "state \<Rightarrow> error + FaissStore" where
  "getVectorStore st =
     (case vectorStore st of
        None \<Rightarrow> Inl (Error ''Vector store not loaded'')
      | Some g \<Rightarrow> Inr g)"

definition getStats :: "state \<Rightarrow> IndexStats option" where
  "getStats st = stats st"

definition indexExists :: "state \<Rightarrow> bool" where
  "indexExists st =
     (case production (disk st) of
        None \<Rightarrow> False
      | Some d \<Rightarrow> index_data d \<noteq> None)"


text \<open>The constructor: nothing loaded, no statistics, no listener.\<close>

definition new_VectorStore :: "nat \<Rightarrow> fs \<Rightarrow> state" where
  "new_VectorStore p d =
     \<lparr>disk = d, history = [], events = [], pid = p, vectorStore = None, stats = None,
      listeners = 0, reload_calls = 0\<rparr>"

section \<open>IndexWatcher (api/services/index-watcher.ts)\<close>

text \<open>
  \<open>watcher\<close> says whether a filesystem watcher is registered on the index directory.
  The \<^verbatim>\<open>'indexUpdated'\<close> listener is registered on the \<^verbatim>\<open>VectorStore\<close> instance, so it
  is counted there.
\<close>

record IndexWatcher =
  watcher :: bool

definition new_IndexWatcher :: IndexWatcher where
  "new_IndexWatcher = \<lparr>watcher = False\<rparr>"

definition start :: "state \<times> IndexWatcher \<Rightarrow> state \<times> IndexWatcher" where
  "start = (\<lambda>(st, iw).
     if production (disk st) = None then (st, iw)
     else (st\<lparr>listeners := listeners st + 1\<rparr>, iw\<lparr>watcher := True\<rparr>))"

definition stop :: "state \<times> IndexWatcher \<Rightarrow> state \<times> IndexWatcher" where
  "stop = (\<lambda>(st, iw). (st\<lparr>listeners := 0\<rparr>, iw\<lparr>watcher := False\<rparr>))"

text \<open>The callback given to \<^verbatim>\<open>fs.watch\<close>, run for an event of the watched directory.\<close>

definition on_fs_event :: "string \<Rightarrow> string \<Rightarrow> state \<times> IndexWatcher \<Rightarrow> state \<times> IndexWatcher" where
  "on_fs_event eventType fname = (\<lambda>(st, iw).
     if watcher iw \<and> fname = ''stats.json'' \<and> eventType = ''change''
     then (st\<lparr>reload_calls := reload_calls st + 1\<rparr>, iw)
     else (st, iw))"

text \<open>What happens in a process after \<^verbatim>\<open>start\<close>: filesystem events of the index
  directory, and calls of \<^verbatim>\<open>save\<close> on the process's \<^verbatim>\<open>VectorStore\<close>.\<close>

datatype activity = FsEvent string string | SaveCall FaissStore IndexStats

fun run_process :: "faults \<Rightarrow> activity list \<Rightarrow> state \<times> IndexWatcher \<Rightarrow> state \<times> IndexWatcher" where
  "run_process F [] p = p"
| "run_process F (FsEvent t f # as) p = run_process F as (on_fs_event t f p)"
| "run_process F (SaveCall g s # as) p = run_process F as (snd (save F g s (fst p)), snd p)"

section \<open>The crawler route (api/routes/crawler.ts)\<close>

text \<open>
  The router's closure holds the flag \<^verbatim>\<open>crawlInProgress\<close>; \<open>children\<close> counts the
  crawler processes it has spawned that have not closed yet.
\<close>

record crawler_router =
  crawlInProgress :: bool
  children :: nat

record http_response =
  status_code :: nat
  body_status :: string
  body_message :: string

definition createCrawlerRouter :: crawler_router where
  "createCrawlerRouter = \<lparr>crawlInProgress = False, children = 0\<rparr>"

definition trigger :: "crawler_router \<Rightarrow> (error + http_response) \<times> crawler_router" where
  "trigger r =
     (if crawlInProgress r then (Inl (AppError ''A crawl is already in progress'' 409), r)
      else (Inr \<lparr>status_code = 202, body_status = ''accepted'',
                 body_message = ''Crawl started in background''\<rparr>,
            r\<lparr>crawlInProgress := True, children := children r + 1\<rparr>))"

text \<open>The \<^verbatim>\<open>'close'\<close> handler of a spawned crawler process.\<close>

definition on_close :: "crawler_router \<Rightarrow> crawler_router" where
  "on_close r = r\<lparr>crawlInProgress := False, children := children r - 1\<rparr>"

definition get_status :: "crawler_router \<Rightarrow> bool" where
  "get_status r = crawlInProgress r"

text \<open>Requests and process exits in the order they arrive; a \<^verbatim>\<open>'close'\<close> event needs a
  child that is still running.\<close>

datatype router_event = Trigger | Close

fun run_router :: "router_event list \<Rightarrow> crawler_router \<Rightarrow> crawler_router" where
  "run_router [] r = r"
| "run_router (Trigger # es) r = run_router es (snd (trigger r))"
| "run_router (Close # es) r = run_router es (if children r = 0 then r else on_close r)"

section \<open>Text cleaning and extraction (crawler/document-processor.ts)\<close>

text \<open>A \<open>char\<close> stands for a UTF-16 code unit below 256. \<open>is_ws\<close> is the white space
  that \<^verbatim>\<open>String.prototype.trim\<close> strips in that range.\<close>

definition LF :: char where "LF = CHR 0x0A"
definition CR :: char where "CR = CHR 0x0D"

definition is_ws :: "char \<Rightarrow> bool" where
  "is_ws c = (c \<in> set [CHR 0x09, CHR 0x0A, CHR 0x0B, CHR 0x0C, CHR 0x0D, CHR 0x20, CHR 0xA0])"

definition trim :: "string \<Rightarrow> string" where
  "trim s = rev (dropWhile is_ws (rev (dropWhile is_ws s)))"

text \<open>\<^verbatim>\<open>.replace(/\r\n/g, '\n')\<close>\<close>

fun replace_crlf :: "string \<Rightarrow> string" where
  "replace_crlf (a # b # cs) =
     (if a = CR \<and> b = LF then LF # replace_crlf cs else a # replace_crlf (b # cs))"
| "replace_crlf cs = cs"

text \<open>\<^verbatim>\<open>.replace(/\r/g, '\n')\<close>\<close>

definition replace_cr :: "string \<Rightarrow> string" where
  "replace_cr s = map (\<lambda>c. if c = CR then LF else c) s"

text \<open>The maximal runs of equal characters, and the replacement of every run of at
  least \<open>least\<close> copies of \<open>c\<close> by \<open>k\<close> copies: \<^verbatim>\<open>/\n{3,}/g\<close> and \<^verbatim>\<open>/ {2,}/g\<close>.\<close>

fun runs :: "string \<Rightarrow> (char \<times> nat) list" where
  "runs [] = []"
| "runs (c # cs) =
     (case runs cs of
        [] \<Rightarrow> [(c, 1)]
      | (d, n) # rs \<Rightarrow> if c = d then (d, Suc n) # rs else (c, 1) # (d, n) # rs)"

definition squeeze :: "char \<Rightarrow> nat \<Rightarrow> nat \<Rightarrow> string \<Rightarrow> string" where
  "squeeze c least k s =
     concat (map (\<lambda>(d, n). replicate (if d = c \<and> least \<le> n then k else n) d) (runs s))"

text \<open>\<^verbatim>\<open>.split('\n')\<close> and \<^verbatim>\<open>.join('\n')\<close>\<close>

fun split_lines :: "string \<Rightarrow> string list" where
  "split_lines [] = [ [] ]"
| "split_lines (c # cs) =
     (case split_lines cs of
        [] \<Rightarrow> (if c = LF then [ [], [] ] else [ [c] ])
      | l # ls \<Rightarrow> if c = LF then [] # l # ls else (c # l) # ls)"

fun join_lines :: "string list \<Rightarrow> string" where
  "join_lines [] = []"
| "join_lines [l] = l"
| "join_lines (l # ls) = l @ LF # join_lines ls"

definition cleanText :: "string \<Rightarrow> string" where
  "cleanText text =
     trim (join_lines (map trim (split_lines
       (squeeze (CHR 0x20) 2 1 (squeeze LF 3 2 (replace_cr (replace_crlf text)))))))"

text \<open>
  What the crawler is given from outside: the SharePoint client, the PDF and Word
  parsers (a failure carries its message), the embedding provider, the clock, and the
  chunking parameters of the configuration.
\<close>

record env =
  sp_initialize :: "error + unit"
  listDocuments :: "error + DocumentMetadata list"
  downloadDocument :: "string \<Rightarrow> error + buffer"
  pdfParse :: "buffer \<Rightarrow> string + string"
  extractRawText :: "buffer \<Rightarrow> string + string"
  embedDocuments :: "string list \<Rightarrow> error + vector list"
  now :: nat
  chunkSize :: nat
  chunkOverlap :: nat

definition processPDF :: "env \<Rightarrow> buffer \<Rightarrow> error + string" where
  "processPDF E b =
     (case pdfParse E b of
        Inl msg \<Rightarrow> Inl (Error (''PDF parsing failed: '' @ msg))
      | Inr t \<Rightarrow> Inr t)"

definition processWord :: "env \<Rightarrow> buffer \<Rightarrow> error + string" where
  "processWord E b =
     (case extractRawText E b of
        Inl msg \<Rightarrow> Inl (Error (''Word document parsing failed: '' @ msg))
      | Inr t \<Rightarrow> Inr t)"

definition processDocument :: "env \<Rightarrow> buffer \<Rightarrow> DocumentMetadata \<Rightarrow> error + ProcessedDocument" where
  "processDocument E b md =
     (case (if doc_contentType md = ''application/pdf'' then processPDF E b
            else if doc_contentType md =
                      ''application/vnd.openxmlformats-officedocument.wordprocessingml.document''
                    \<or> doc_contentType md = ''application/msword'' then processWord E b
            else Inl (Error (''Unsupported content type: '' @ doc_contentType md))) of
        Inl e \<Rightarrow> Inl e
      | Inr raw \<Rightarrow>
          (let content = cleanText raw in
           if content = [] \<or> length (trim content) = 0
           then Inl (Error ''No text content extracted from document'')
           else Inr \<lparr>pd_metadata = md, pd_content = content, pd_chunks = []\<rparr>))"

section \<open>Chunking and index construction (crawler/indexer.ts)\<close>

text \<open>
  \<^verbatim>\<open>RecursiveCharacterTextSplitter\<close> of \<^verbatim>\<open>@langchain/textsplitters\<close>, which the
  \<^verbatim>\<open>Indexer\<close> constructs with \<^verbatim>\<open>chunkSize\<close> and \<^verbatim>\<open>chunkOverlap\<close> only, is library code
  that is not among the sources. What follows is the library's algorithm with the
  options left at their defaults: the separators \<^verbatim>\<open>["\n\n", "\n", " ", ""]\<close>, separators
  kept at the start of the piece they introduce, lengths counted in characters. The
  functions carry the names of the library's methods; \<open>tot\<close> is its variable
  \<^verbatim>\<open>total\<close>.
\<close>

text \<open>\<^verbatim>\<open>text.includes(s)\<close>\<close>

fun str_includes :: "string \<Rightarrow> string \<Rightarrow> bool" where
  "str_includes [] s = (s = [])"
| "str_includes (c # cs) s = (take (length s) (c # cs) = s \<or> str_includes cs s)"

text \<open>\<^verbatim>\<open>text.split(new RegExp("(?=" + sep + ")"))\<close>: the text is cut before every
  occurrence of the separator except one at the very start.\<close>

fun split_before :: "string \<Rightarrow> string \<Rightarrow> string list" where
  "split_before sep [] = []"
| "split_before sep (c # cs) =
     (if cs \<noteq> [] \<and> take (length sep) cs = sep then [c] # split_before sep cs
      else (case split_before sep cs of [] \<Rightarrow> [ [c] ] | p # ps \<Rightarrow> (c # p) # ps))"

definition splitOnSeparator :: "string \<Rightarrow> string \<Rightarrow> string list" where
  "splitOnSeparator text sep =
     filter (\<lambda>s. s \<noteq> []) (if sep \<noteq> [] then split_before sep text else map (\<lambda>c. [c]) text)"

text \<open>\<^verbatim>\<open>docs.join(separator).trim()\<close>, or null when that is empty.\<close>

fun join_with :: "string \<Rightarrow> string list \<Rightarrow> string" where
  "join_with sep [] = []"
| "join_with sep [d] = d"
| "join_with sep (d # ds) = d @ sep @ join_with sep ds"

definition joinDocs :: "string list \<Rightarrow> string \<Rightarrow> string option" where
  "joinDocs docs sep = (let text = trim (join_with sep docs) in if text = [] then None else Some text)"

text \<open>
  \<^verbatim>\<open>mergeSplits\<close>: the pieces are collected in \<^verbatim>\<open>currentDoc\<close> until the next one would
  make it longer than \<^verbatim>\<open>chunkSize\<close>; then the collected pieces are joined to a chunk,
  and pieces are dropped from the front (\<open>pop_front\<close> is the \<^verbatim>\<open>while\<close> loop) until what
  is left is no longer than \<^verbatim>\<open>chunkOverlap\<close> and has room for the next piece. \<open>tot\<close> is
  always the summed length of \<^verbatim>\<open>currentDoc\<close>, so the loop stops at the latest when
  \<^verbatim>\<open>currentDoc\<close> is empty.
\<close>

fun pop_front :: "nat \<Rightarrow> nat \<Rightarrow> nat \<Rightarrow> nat \<Rightarrow> string list \<Rightarrow> nat \<Rightarrow> string list \<times> nat" where
  "pop_front sz ov sl len [] tot = ([], tot)"
| "pop_front sz ov sl len (c # cs) tot =
     (if ov < tot \<or> (sz < tot + len + length (c # cs) * sl \<and> 0 < tot)
      then pop_front sz ov sl len cs (tot - length c)
      else (c # cs, tot))"

definition merge_step :: "nat \<Rightarrow> nat \<Rightarrow> string \<Rightarrow> string list \<times> string list \<times> nat \<Rightarrow> string
    \<Rightarrow> string list \<times> string list \<times> nat" where
  "merge_step sz ov sep = (\<lambda>(docs, currentDoc, tot) d.
     if sz < tot + length d + length currentDoc * length sep \<and> currentDoc \<noteq> [] then
       (case pop_front sz ov (length sep) (length d) currentDoc tot of
          (kept, tot') \<Rightarrow>
            (docs @ (case joinDocs currentDoc sep of None \<Rightarrow> [] | Some doc \<Rightarrow> [doc]),
             kept @ [d], tot' + length d))
     else (docs, currentDoc @ [d], tot + length d))"

definition mergeSplits :: "nat \<Rightarrow> nat \<Rightarrow> string list \<Rightarrow> string \<Rightarrow> string list" where
  "mergeSplits sz ov splits sep =
     (case foldl (merge_step sz ov sep) ([], [], 0) splits of
        (docs, currentDoc, tot) \<Rightarrow>
          docs @ (case joinDocs currentDoc sep of None \<Rightarrow> [] | Some doc \<Rightarrow> [doc]))"

text \<open>
  \<^verbatim>\<open>_splitText\<close>: the first separator that occurs in the text cuts it; pieces shorter
  than \<^verbatim>\<open>chunkSize\<close> are merged, a longer piece is split again with the separators that
  remain (\<open>split_loop\<close> is the \<^verbatim>\<open>for\<close> loop over the pieces). The list of separators
  ends with the empty one, which cuts between any two characters and is tried last, so
  the first equation of \<open>splitText_rec\<close> is never reached from \<open>separators\<close>.
\<close>

fun split_loop :: "nat \<Rightarrow> (string list \<Rightarrow> string list) \<Rightarrow> (string \<Rightarrow> string list) option
    \<Rightarrow> string list \<Rightarrow> string list \<Rightarrow> string list" where
  "split_loop sz merge deeper [] goodSplits = (if goodSplits \<noteq> [] then merge goodSplits else [])"
| "split_loop sz merge deeper (s # ss) goodSplits =
     (if length s < sz then split_loop sz merge deeper ss (goodSplits @ [s])
      else (if goodSplits \<noteq> [] then merge goodSplits else []) @
           (case deeper of None \<Rightarrow> [s] | Some f \<Rightarrow> f s) @
           split_loop sz merge deeper ss [])"

primrec splitText_rec :: "string list \<Rightarrow> nat \<Rightarrow> nat \<Rightarrow> string \<Rightarrow> string list" where
  "splitText_rec [] sz ov text =
     split_loop sz (\<lambda>g. mergeSplits sz ov g []) None (splitOnSeparator text []) []"
| "splitText_rec (s # seps) sz ov text =
     (if s = [] then
        split_loop sz (\<lambda>g. mergeSplits sz ov g []) None (splitOnSeparator text []) []
      else if str_includes text s then
        split_loop sz (\<lambda>g. mergeSplits sz ov g []) (Some (splitText_rec seps sz ov))
          (splitOnSeparator text s) []
      else splitText_rec seps sz ov text)"

definition separators :: "string list" where
  "separators = [ [LF, LF], [LF], [CHR 0x20], [] ]"

text \<open>The constructor of the splitter rejects \<^verbatim>\<open>chunkOverlap >= chunkSize\<close>; \<^verbatim>\<open>main\<close>
  constructs the \<^verbatim>\<open>Indexer\<close>, and with it the splitter, before it builds the index.\<close>

definition new_Indexer :: "env \<Rightarrow> error + unit" where
  "new_Indexer E =
     (if chunkOverlap E < chunkSize E then Inr ()
      else Inl (Error ''Cannot have chunkOverlap >= chunkSize''))"

definition splitText :: "nat \<Rightarrow> nat \<Rightarrow> string \<Rightarrow> error + string list" where
  "splitText sz ov text =
     (if ov < sz then Inr (splitText_rec separators sz ov text)
      else Inl (Error ''Cannot have chunkOverlap >= chunkSize''))"

definition chunkDocument :: "env \<Rightarrow> ProcessedDocument \<Rightarrow> error + DocumentChunk list" where
  "chunkDocument E doc =
     (case splitText (chunkSize E) (chunkOverlap E) (pd_content doc) of
        Inl e \<Rightarrow> Inl e
      | Inr textChunks \<Rightarrow>
          Inr (map (\<lambda>(index, content).
                 \<lparr>chunk_content = content,
                  chunk_metadata =
                    \<lparr>documentId = doc_id (pd_metadata doc),
                     filename = doc_filename (pd_metadata doc),
                     url = doc_url (pd_metadata doc),
                     chunkIndex = index,
                     totalChunks = length textChunks\<rparr>\<rparr>)
               (enumerate 0 textChunks)))"

definition to_Document :: "DocumentChunk \<Rightarrow> Document" where
  "to_Document c = \<lparr>pageContent = chunk_content c, metadata = chunk_metadata c\<rparr>"

text \<open>The loop of \<^verbatim>\<open>createIndex\<close>: every document gets its chunks assigned
  (\<^verbatim>\<open>doc.chunks = chunks\<close>); a chunking failure aborts the build.\<close>

fun chunk_all :: "env \<Rightarrow> ProcessedDocument list \<Rightarrow> error + ProcessedDocument list" where
  "chunk_all E [] = Inr []"
| "chunk_all E (doc # docs) =
     (case chunkDocument E doc of
        Inl e \<Rightarrow> Inl e
      | Inr chunks \<Rightarrow>
          (case chunk_all E docs of
             Inl e \<Rightarrow> Inl e
           | Inr docs' \<Rightarrow> Inr (doc\<lparr>pd_chunks := chunks\<rparr> # docs')))"

text \<open>
  \<^verbatim>\<open>FaissStore.fromDocuments\<close> is library code: it embeds the page contents and adds
  the vectors with their documents. When there is no vector to add it returns the store
  as it is, empty; vectors and documents of different number are an error.
\<close>

definition fromDocuments :: "env \<Rightarrow> Document list \<Rightarrow> error + FaissStore" where
  "fromDocuments E docs =
     (case embedDocuments E (map pageContent docs) of
        Inl e \<Rightarrow> Inl e
      | Inr vs \<Rightarrow>
          if vs = [] then Inr \<lparr>vectors = [], docstore = []\<rparr>
          else if length vs \<noteq> length docs
          then Inl (Error ''Vectors and documents must have the same length'')
          else Inr \<lparr>vectors = vs, docstore = docs\<rparr>)"

definition createIndex :: "env \<Rightarrow> ProcessedDocument list \<Rightarrow> error + (ProcessedDocument list \<times> FaissStore)" where
  "createIndex E documents =
     (case chunk_all E documents of
        Inl e \<Rightarrow> Inl e
      | Inr docs' \<Rightarrow>
          (case fromDocuments E (concat (map (\<lambda>d. map to_Document (pd_chunks d)) docs')) of
             Inl e \<Rightarrow> Inl e
           | Inr g \<Rightarrow> Inr (docs', g)))"

section \<open>The crawler (crawler/index.ts)\<close>

definition error_message :: "error \<Rightarrow> string" where
  "error_message e =
     (case e of
        Error m \<Rightarrow> m
      | AppError m c \<Rightarrow> m
      | SysError x \<Rightarrow>
          (case x of EEXIST \<Rightarrow> ''EEXIST'' | ENOENT \<Rightarrow> ''ENOENT'' | ENOTEMPTY \<Rightarrow> ''ENOTEMPTY''
           | EACCES \<Rightarrow> ''EACCES'' | EIO \<Rightarrow> ''EIO'' | ENOSPC \<Rightarrow> ''ENOSPC''))"

record crawl_state =
  errors :: "CrawlError list"
  documentsProcessed :: nat
  documentsSkipped :: nat
  processedDocuments :: "ProcessedDocument list"

definition crawl_start :: crawl_state where
  "crawl_start = \<lparr>errors = [], documentsProcessed = 0, documentsSkipped = 0, processedDocuments = []\<rparr>"

text \<open>The body of the \<^verbatim>\<open>try\<close> block of the loop: download, then extraction.\<close>

definition fetch :: "env \<Rightarrow> DocumentMetadata \<Rightarrow> error + ProcessedDocument" where
  "fetch E md =
     (case downloadDocument E (doc_path md) of
        Inl e \<Rightarrow> Inl e
      | Inr b \<Rightarrow> processDocument E b md)"

fun process_documents :: "env \<Rightarrow> DocumentMetadata list \<Rightarrow> crawl_state \<Rightarrow> crawl_state" where
  "process_documents E [] c = c"
| "process_documents E (md # mds) c =
     (case fetch E md of
        Inr processedDoc \<Rightarrow>
          process_documents E mds
            (c\<lparr>processedDocuments := processedDocuments c @ [processedDoc],
               documentsProcessed := documentsProcessed c + 1\<rparr>)
      | Inl e \<Rightarrow>
          process_documents E mds
            (c\<lparr>documentsSkipped := documentsSkipped c + 1,
               errors := errors c @
                 [\<lparr>err_filename = doc_filename md, err_error = error_message e,
                   err_timestamp = now E\<rparr>]\<rparr>))"

text \<open>What \<^verbatim>\<open>main\<close> reports when the crawl completes: the \<^verbatim>\<open>'Crawl completed'\<close> log
  entry and the errors of the \<^verbatim>\<open>'Crawl completed with errors'\<close> warning.\<close>

record crawl_report =
  rep_documentsProcessed :: nat
  rep_documentsSkipped :: nat
  rep_totalChunks :: nat
  rep_errors :: "CrawlError list"

text \<open>\<^verbatim>\<open>main\<close> in a process \<open>p\<close> on the disk \<open>d\<close>: \<open>Inr\<close> is \<^verbatim>\<open>process.exit(0)\<close>, \<open>Inl\<close>
  is \<^verbatim>\<open>process.exit(1)\<close>.\<close>

definition main :: "env \<Rightarrow> faults \<Rightarrow> nat \<Rightarrow> fs \<Rightarrow> (error + crawl_report) \<times> state" where
  "main E F p d =
     (case sp_initialize E of
        Inl e \<Rightarrow> (Inl e, new_VectorStore p d)
      | Inr u \<Rightarrow>
     (case listDocuments E of
        Inl e \<Rightarrow> (Inl e, new_VectorStore p d)
      | Inr documents \<Rightarrow>
     (let c = process_documents E documents crawl_start in
      case new_Indexer E of
        Inl e \<Rightarrow> (Inl e, new_VectorStore p d)
      | Inr u \<Rightarrow>
     (case createIndex E (processedDocuments c) of
        Inl e \<Rightarrow> (Inl e, new_VectorStore p d)
      | Inr (docs', g) \<Rightarrow>
     (let total = sum_list (map (\<lambda>doc. length (pd_chunks doc)) docs');
          s = \<lparr>totalDocuments = documentsProcessed c, stats_totalChunks = total,
               lastUpdated = now E, indexSize = 0\<rparr> in
      case save F g s (new_VectorStore p d) of
        (Inl e, st) \<Rightarrow> (Inl e, st)
      | (Inr u, st) \<Rightarrow>
          (Inr \<lparr>rep_documentsProcessed = documentsProcessed c,
                rep_documentsSkipped = documentsSkipped c,
                rep_totalChunks = total,
                rep_errors = errors c\<rparr>, st))))))"

section \<open>The query route (api/routes/query.ts)\<close>

record QueryRequest =
  req_query :: "string option"
  req_topK :: "nat option"

record SourceDocument =
  src_filename :: string
  src_url :: string
  src_content :: string
  src_score :: real

record QueryResponse =
  answer :: string
  sources :: "SourceDocument list"

text \<open>The result of the retrieval chain: the answer and the retrieved documents, each
  with the score its metadata carries, if any.\<close>

record chain_result =
  result_text :: string
  sourceDocuments :: "(Document \<times> real option) list"

type_synonym chain = "FaissStore \<Rightarrow> nat \<Rightarrow> string \<Rightarrow> error + chain_result"

definition to_source :: "Document \<times> real option \<Rightarrow> SourceDocument" where
  "to_source = (\<lambda>(doc, sc).
     \<lparr>src_filename = filename (metadata doc), src_url = url (metadata doc),
      src_content = pageContent doc, src_score = (case sc of None \<Rightarrow> 0 | Some x \<Rightarrow> x)\<rparr>)"

definition post_query :: "chain \<Rightarrow> QueryRequest \<Rightarrow> state \<Rightarrow> (error + QueryResponse) \<times> state" where
  "post_query call req st =
     (let topK = (case req_topK req of None \<Rightarrow> 4 | Some k \<Rightarrow> k) in
      case req_query req of
        None \<Rightarrow> (Inl (AppError ''Query is required'' 400), st)
      | Some q \<Rightarrow>
          if q = [] \<or> length (trim q) = 0 then (Inl (AppError ''Query is required'' 400), st)
          else
            (case getVectorStore st of
               Inl e \<Rightarrow> (Inl (AppError ''Failed to process query'' 500), st)
             | Inr g \<Rightarrow>
                 (case call g topK q of
                    Inl e \<Rightarrow> (Inl (AppError ''Failed to process query'' 500), st)
                  | Inr r \<Rightarrow>
                      (Inr \<lparr>answer = result_text r,
                            sources = map to_source (sourceDocuments r)\<rparr>, st))))"

definition get_query_stats :: "state \<Rightarrow> error + IndexStats" where
  "get_query_stats st =
     (case getStats st of
        None \<Rightarrow> Inl (AppError ''Index stats not available'' 404)
      | Some s \<Rightarrow> Inr s)"

section \<open>Notions used in the properties\<close>



text \<open>A text with a character that is not white space.\<close>

definition nonblank :: "string \<Rightarrow> bool" where
  "nonblank s = (\<exists>c \<in> set s. \<not> is_ws c)"


text \<open>The documents of a batch whose download or extraction fails, and the processed
  documents of the others, in the order of the batch.\<close>

definition failed_documents :: "env \<Rightarrow> DocumentMetadata list \<Rightarrow> DocumentMetadata list" where
  "failed_documents E mds = filter (\<lambda>md. isl (fetch E md)) mds"

definition fetched_documents :: "env \<Rightarrow> DocumentMetadata list \<Rightarrow> ProcessedDocument list" where
  "fetched_documents E mds = map (\<lambda>md. projr (fetch E md)) (filter (\<lambda>md. \<not> isl (fetch E md)) mds)"

text \<open>What a reader finds at the production path, the lock file aside: nothing, or
  the index artifacts and the sidecar of the directory there.\<close>

definition visible :: "fs \<Rightarrow> (FaissStore option \<times> sidecar option) option" where
  "visible f = map_option (\<lambda>d. (index_data d, stats_json d)) (production f)"


section \<open>Example states\<close>

text \<open>Two generations with their statistics, the directories that hold them, a disk
  with no index path at all, and a store that has loaded generation A while the disk
  holds generation B without its sidecar.\<close>

definition absent_fs :: fs where
  "absent_fs = \<lparr>production = None, temp = None, backup = None\<rparr>"

definition stats_A :: IndexStats where
  "stats_A = \<lparr>totalDocuments = 1, stats_totalChunks = 1, lastUpdated = 100, indexSize = 0\<rparr>"

definition stats_B :: IndexStats where
  "stats_B = \<lparr>totalDocuments = 2, stats_totalChunks = 2, lastUpdated = 200, indexSize = 0\<rparr>"

definition gen_A :: FaissStore where
  "gen_A = \<lparr>vectors = [ [1] ], docstore = [\<lparr>pageContent = ''A'', metadata =
     \<lparr>documentId = ''a'', filename = ''a.pdf'', url = ''u/a'', chunkIndex = 0, totalChunks = 1\<rparr>\<rparr>]\<rparr>"

definition gen_B :: FaissStore where
  "gen_B = \<lparr>vectors = [ [2] ], docstore = [\<lparr>pageContent = ''B'', metadata =
     \<lparr>documentId = ''b'', filename = ''b.pdf'', url = ''u/b'', chunkIndex = 0, totalChunks = 1\<rparr>\<rparr>]\<rparr>"

definition dir_A :: dir where
  "dir_A = \<lparr>index_data = Some gen_A, stats_json = Some (ValidStats stats_A), lock_file = None\<rparr>"

definition dir_B :: dir where
  "dir_B = \<lparr>index_data = Some gen_B, stats_json = Some (ValidStats stats_B), lock_file = None\<rparr>"

definition fs_A :: fs where
  "fs_A = \<lparr>production = Some dir_A, temp = None, backup = None\<rparr>"

definition fs_A_stale_lock :: fs where
  "fs_A_stale_lock = \<lparr>production = Some (dir_A\<lparr>lock_file := Some 4242\<rparr>), temp = None, backup = None\<rparr>"

definition fs_B_no_sidecar :: fs where
  "fs_B_no_sidecar = \<lparr>production = Some (dir_B\<lparr>stats_json := None\<rparr>), temp = None, backup = None\<rparr>"

definition store_with_A_loaded :: state where
  "store_with_A_loaded =
     (new_VectorStore 7 fs_B_no_sidecar)\<lparr>vectorStore := Some gen_A, stats := Some stats_A\<rparr>"

definition disk_full :: faults where
  "disk_full = (\<lambda>op. if op = SaveTemp then Some ENOSPC else None)"

definition first_hits_chain :: chain where
  "first_hits_chain g k q =
     Inr \<lparr>result_text = ''answer to: '' @ q,
          sourceDocuments = map (\<lambda>d. (d, None)) (take k (docstore g))\<rparr>"

definition request_A :: QueryRequest where
  "request_A = \<lparr>req_query = Some ''what is new?'', req_topK = None\<rparr>"

definition busy_router :: crawler_router where
  "busy_router = \<lparr>crawlInProgress = True, children = 1\<rparr>"

text \<open>A batch of three documents with chunk size 8 and overlap 2: a PDF with the text
  \<^verbatim>\<open>AAAA BBBB CCCC\<close>, a PDF that cannot be parsed, and a Word document with the text
  \<^verbatim>\<open>DDDD\<close>.\<close>

definition md_1 :: DocumentMetadata where
  "md_1 = \<lparr>doc_id = ''1'', doc_filename = ''doc1.pdf'', doc_url = ''https://sp/lib/doc1.pdf'',
     doc_path = ''/lib/doc1.pdf'', doc_modified = 10, doc_size = 1,
     doc_contentType = ''application/pdf'', doc_library = ''lib''\<rparr>"

definition md_2 :: DocumentMetadata where
  "md_2 = \<lparr>doc_id = ''2'', doc_filename = ''broken.pdf'', doc_url = ''https://sp/lib/broken.pdf'',
     doc_path = ''/lib/broken.pdf'', doc_modified = 20, doc_size = 1,
     doc_contentType = ''application/pdf'', doc_library = ''lib''\<rparr>"

definition md_3 :: DocumentMetadata where
  "md_3 = \<lparr>doc_id = ''3'', doc_filename = ''doc2.doc'', doc_url = ''https://sp/lib/doc2.doc'',
     doc_path = ''/lib/doc2.doc'', doc_modified = 30, doc_size = 1,
     doc_contentType = ''application/msword'', doc_library = ''lib''\<rparr>"

definition example_env :: env where
  "example_env =
     \<lparr>sp_initialize = Inr (),
      listDocuments = Inr [md_1, md_2, md_3],
      downloadDocument = (\<lambda>p. if p = ''/lib/doc1.pdf'' then Inr [1]
                               else if p = ''/lib/broken.pdf'' then Inr [2]
                               else if p = ''/lib/doc2.doc'' then Inr [3]
                               else Inl (Error ''File not found'')),
      pdfParse = (\<lambda>b. if b = [1] then Inr ''AAAA BBBB CCCC'' else Inl ''Invalid PDF structure''),
      extractRawText = (\<lambda>b. if b = [3] then Inr ''DDDD'' else Inl ''Not a Word document''),
      embedDocuments = (\<lambda>ts. Inr (map (\<lambda>t. [real (length t)]) ts)),
      now = 1000,
      chunkSize = 8,
      chunkOverlap = 2\<rparr>"





text \<open>The same surroundings with a batch whose only document cannot be parsed.\<close>

definition all_fail_env :: env where
  "all_fail_env = example_env\<lparr>listDocuments := Inr [md_2]\<rparr>"

section \<open>Properties of the index store\<close>

lemmas io_defs = bind_io_def catch_io_def attempt_def mkdir_indexPath_def writeFile_lock_wx_def
  mkdir_parent_def faiss_save_temp_def writeFile_stats_def rm_backup_def rename_dir_def
  rename_prod_backup_def rename_temp_prod_def faiss_load_def lock_exists_def put_disk_def
  log_event_def sleep_def releaseLock_def loadStats_def emit_indexUpdated_def swap_out_def
  is_empty_dir_def empty_dir_def no_faults_def

lemmas store_defs = save_def save_body_def load_def load_body_def acquireLock_def

lemmas example_defs = new_VectorStore_def absent_fs_def stats_A_def stats_B_def gen_A_def
  gen_B_def dir_A_def dir_B_def fs_A_def fs_A_stale_lock_def fs_B_no_sidecar_def
  store_with_A_loaded_def disk_full_def

subsection \<open>The lock\<close>

lemma lock_step_present:
  assumes "F MkdirIndexDir = None" "F WriteLock = None" "lock_exists (disk st)"
  shows "bind_io (mkdir_indexPath F) (\<lambda>_. writeFile_lock_wx F) st = (Inl (SysError EEXIST), st)"
  using assms
  by (auto simp: bind_io_def mkdir_indexPath_def writeFile_lock_wx_def attempt_def lock_exists_def
      split: option.splits)

lemma acquireLock_loop_stale:
  assumes "F MkdirIndexDir = None" "F WriteLock = None" "lock_exists (disk st)"
  shows "acquireLock_loop F maxRetries retryDelay retries st =
     (Inl (Error ''Failed to acquire lock after maximum retries''),
      st\<lparr>events := events st @ replicate (maxRetries - retries) (LockWait retryDelay)\<rparr>)"
  using assms
proof (induction F maxRetries retryDelay retries st rule: acquireLock_loop.induct)
  case (1 F maxRetries retryDelay retries st)
  show ?case
  proof (cases "retries < maxRetries")
    case True
    have d: "disk (sleep retryDelay st) = disk st" by (simp add: sleep_def log_event_def)
    have step: "bind_io (mkdir_indexPath F) (\<lambda>_. writeFile_lock_wx F) st = (Inl (SysError EEXIST), st)"
      using 1 lock_step_present by blast
    have ih: "acquireLock_loop F maxRetries retryDelay (retries + 1) (sleep retryDelay st) =
      (Inl (Error ''Failed to acquire lock after maximum retries''),
        (sleep retryDelay st)\<lparr>events := events (sleep retryDelay st) @
           replicate (maxRetries - (retries + 1)) (LockWait retryDelay)\<rparr>)"
      using "1.IH"[OF True step[symmetric] refl refl] 1(2,3,4) d by simp
    have r: "maxRetries - retries = Suc (maxRetries - (retries + 1))" using True by simp
    show ?thesis
      apply (subst acquireLock_loop.simps)
      apply (simp only: True if_True step prod.case sum.case ih)
      apply (simp add: sleep_def log_event_def r)
      done
  next
    case False
    then show ?thesis by (subst acquireLock_loop.simps) simp
  qed
qed

lemma acquireLock_stale:
  assumes "F MkdirIndexDir = None" "F WriteLock = None" "lock_exists (disk st)"
  shows "acquireLock F maxRetries retryDelay st =
     (Inl LockAcquisitionTimeoutError,
      st\<lparr>events := events st @ replicate maxRetries (LockWait retryDelay)\<rparr>)"
  using acquireLock_loop_stale[OF assms, of maxRetries retryDelay 0]
  by (simp add: acquireLock_def LockAcquisitionTimeoutError_def)

lemma save_stale:
  assumes "F MkdirIndexDir = None" "F WriteLock = None" "lock_exists (disk st)"
  shows "save F g s st =
     (Inl LockAcquisitionTimeoutError,
      releaseLock F (st\<lparr>events := events st @ replicate 30 (LockWait 1000)\<rparr>))"
  by (simp add: save_def save_body_def catch_io_def bind_io_def acquireLock_stale[OF assms])

lemma releaseLock_held:
  assumes "production (disk st) = Some d" "lock_file d = Some p"
  shows "releaseLock F st =
     (if F UnlinkLock = None
      then put_disk ((disk st)\<lparr>production := Some (d\<lparr>lock_file := None\<rparr>)\<rparr>) (log_event ReleaseLockCalled st)
      else log_event ReleaseLockCalled st)"
  using assms
  by (auto simp: releaseLock_def log_event_def lock_exists_def Let_def split: option.splits)

lemma writeFile_lock_wx_creates:
  assumes "F WriteLock = None" and "production (disk st) = Some d" and "lock_file d = None"
  shows "writeFile_lock_wx F st =
           (Inr (), put_disk ((disk st)\<lparr>production := Some (d\<lparr>lock_file := Some (pid st)\<rparr>)\<rparr>) st)"
  using assms by (simp add: writeFile_lock_wx_def attempt_def)

lemma acquireLock_creates:
  assumes "F MkdirIndexDir = None" and "F WriteLock = None"
    and "\<not> lock_exists (disk st)" and "0 < n"
  shows "fst (acquireLock F n retryDelay st) = Inr () \<and>
         production (disk (snd (acquireLock F n retryDelay st))) =
           Some ((case production (disk st) of None \<Rightarrow> empty_dir | Some d \<Rightarrow> d)
                   \<lparr>lock_file := Some (pid st)\<rparr>) \<and>
         temp (disk (snd (acquireLock F n retryDelay st))) = temp (disk st) \<and>
         backup (disk (snd (acquireLock F n retryDelay st))) = backup (disk st) \<and>
         events (snd (acquireLock F n retryDelay st)) = events st @ [LockAcquired] \<and>
         pid (snd (acquireLock F n retryDelay st)) = pid st"
  using assms
  by (cases "production (disk st)")
     (auto simp add: acquireLock_def acquireLock_loop.simps[of _ _ _ 0] bind_io_def attempt_def
        mkdir_indexPath_def writeFile_lock_wx_def put_disk_def log_event_def lock_exists_def
        empty_dir_def split: option.splits)

text \<open>
  C2: the lock file is created exclusively. Where there is none, \<^verbatim>\<open>writeFile\<close> with
  the flag \<^verbatim>\<open>wx\<close> creates it with the process id, and \<^verbatim>\<open>acquireLock\<close> (with at least
  one attempt allowed) succeeds at the first attempt, without waiting, leaving the lock
  file at the lock path, so that a second \<^verbatim>\<open>acquireLock\<close> then times out. While the
  lock file is there, creation fails with \<^verbatim>\<open>EEXIST\<close> and changes nothing, not even the
  content of the file. With the lock present and staying present, \<^verbatim>\<open>acquireLock\<close> waits
  \<open>retryDelay\<close> exactly \<open>maxRetries\<close> times and then fails with the timeout error, the disk
  untouched. A \<^verbatim>\<open>save\<close> in that situation fails with the same error after 30 waits of
  1000 ms; the index data and the sidecar at the production path, the temporary and the
  backup path and the store's memory are as before. (Its error handler calls
  \<^verbatim>\<open>releaseLock\<close>, which removes the stale lock file unless the unlink fails.) The lock
  operations themselves are assumed not to fail otherwise.
\<close>

theorem acquireLock_exclusive_retry_timeout:
  assumes "F MkdirIndexDir = None" and "F WriteLock = None"
    and "production (disk st) = Some d" and "lock_file d = Some p"
  shows "writeFile_lock_wx F st = (Inl (SysError EEXIST), st) \<and>
         acquireLock F maxRetries retryDelay st =
           (Inl LockAcquisitionTimeoutError,
            st\<lparr>events := events st @ replicate maxRetries (LockWait retryDelay)\<rparr>) \<and>
         fst (save F g s st) = Inl LockAcquisitionTimeoutError \<and>
         events (snd (save F g s st)) =
           events st @ replicate 30 (LockWait 1000) @ [ReleaseLockCalled] \<and>
         production (disk (snd (save F g s st))) =
           Some (d\<lparr>lock_file := (if F UnlinkLock = None then None else Some p)\<rparr>) \<and>
         temp (disk (snd (save F g s st))) = temp (disk st) \<and>
         backup (disk (snd (save F g s st))) = backup (disk st) \<and>
         vectorStore (snd (save F g s st)) = vectorStore st \<and>
         stats (snd (save F g s st)) = stats st \<and>
         (\<forall>d0. production (disk st0) = Some d0 \<and> lock_file d0 = None \<longrightarrow>
            writeFile_lock_wx F st0 =
              (Inr (), put_disk ((disk st0)\<lparr>production :=
                                   Some (d0\<lparr>lock_file := Some (pid st0)\<rparr>)\<rparr>) st0)) \<and>
         (\<not> lock_exists (disk st0) \<and> 0 < n \<longrightarrow>
            fst (acquireLock F n retryDelay st0) = Inr () \<and>
            production (disk (snd (acquireLock F n retryDelay st0))) =
              Some ((case production (disk st0) of None \<Rightarrow> empty_dir | Some d0 \<Rightarrow> d0)
                      \<lparr>lock_file := Some (pid st0)\<rparr>) \<and>
            temp (disk (snd (acquireLock F n retryDelay st0))) = temp (disk st0) \<and>
            backup (disk (snd (acquireLock F n retryDelay st0))) = backup (disk st0) \<and>
            events (snd (acquireLock F n retryDelay st0)) = events st0 @ [LockAcquired] \<and>
            fst (acquireLock F maxRetries retryDelay (snd (acquireLock F n retryDelay st0))) =
              Inl LockAcquisitionTimeoutError)"
proof -
  have le: "lock_exists (disk st)" using assms(3,4) by (simp add: lock_exists_def)
  have w: "writeFile_lock_wx F st = (Inl (SysError EEXIST), st)"
    using assms by (simp add: writeFile_lock_wx_def attempt_def)
  have a: "acquireLock F maxRetries retryDelay st =
           (Inl LockAcquisitionTimeoutError,
            st\<lparr>events := events st @ replicate maxRetries (LockWait retryDelay)\<rparr>)"
    by (rule acquireLock_stale[OF assms(1,2) le])
  let ?st1 = "st\<lparr>events := events st @ replicate 30 (LockWait 1000)\<rparr>"
  have sv: "save F g s st = (Inl LockAcquisitionTimeoutError, releaseLock F ?st1)"
    by (rule save_stale[OF assms(1,2) le])
  have p1: "production (disk ?st1) = Some d" using assms(3) by simp
  note rl = releaseLock_held[OF p1 assms(4), of F]
  have d: "d\<lparr>lock_file := Some p\<rparr> = d" using assms(4) by simp
  have s1: "fst (save F g s st) = Inl LockAcquisitionTimeoutError" by (simp add: sv)
  have s2: "events (snd (save F g s st)) =
           events st @ replicate 30 (LockWait 1000) @ [ReleaseLockCalled]"
    by (simp add: sv rl put_disk_def log_event_def)
  have s3: "production (disk (snd (save F g s st))) =
           Some (d\<lparr>lock_file := (if F UnlinkLock = None then None else Some p)\<rparr>)"
    using assms(3) d by (simp add: sv rl put_disk_def log_event_def)
  have s4: "temp (disk (snd (save F g s st))) = temp (disk st)"
    by (simp add: sv rl put_disk_def log_event_def)
  have s5: "backup (disk (snd (save F g s st))) = backup (disk st)"
    by (simp add: sv rl put_disk_def log_event_def)
  have s6: "vectorStore (snd (save F g s st)) = vectorStore st"
    by (simp add: sv rl put_disk_def log_event_def)
  have s7: "stats (snd (save F g s st)) = stats st"
    by (simp add: sv rl put_disk_def log_event_def)
  have c1: "\<forall>d0. production (disk st0) = Some d0 \<and> lock_file d0 = None \<longrightarrow>
            writeFile_lock_wx F st0 =
              (Inr (), put_disk ((disk st0)\<lparr>production :=
                                   Some (d0\<lparr>lock_file := Some (pid st0)\<rparr>)\<rparr>) st0)"
    using writeFile_lock_wx_creates[where F=F and st=st0, OF assms(2)] by blast
  have c2: "\<not> lock_exists (disk st0) \<and> 0 < n \<longrightarrow>
            fst (acquireLock F n retryDelay st0) = Inr () \<and>
            production (disk (snd (acquireLock F n retryDelay st0))) =
              Some ((case production (disk st0) of None \<Rightarrow> empty_dir | Some d0 \<Rightarrow> d0)
                      \<lparr>lock_file := Some (pid st0)\<rparr>) \<and>
            temp (disk (snd (acquireLock F n retryDelay st0))) = temp (disk st0) \<and>
            backup (disk (snd (acquireLock F n retryDelay st0))) = backup (disk st0) \<and>
            events (snd (acquireLock F n retryDelay st0)) = events st0 @ [LockAcquired] \<and>
            fst (acquireLock F maxRetries retryDelay (snd (acquireLock F n retryDelay st0))) =
              Inl LockAcquisitionTimeoutError"
  proof
    assume h: "\<not> lock_exists (disk st0) \<and> 0 < n"
    then have h1: "\<not> lock_exists (disk st0)" and h2: "0 < n" by simp_all
    note ac = acquireLock_creates[OF assms(1,2) h1 h2, of retryDelay]
    let ?st' = "snd (acquireLock F n retryDelay st0)"
    from ac have "lock_exists (disk ?st')" by (simp add: lock_exists_def)
    from acquireLock_stale[OF assms(1,2) this, of maxRetries retryDelay]
    have "fst (acquireLock F maxRetries retryDelay ?st') = Inl LockAcquisitionTimeoutError"
      by simp
    with ac show "fst (acquireLock F n retryDelay st0) = Inr () \<and>
            production (disk (snd (acquireLock F n retryDelay st0))) =
              Some ((case production (disk st0) of None \<Rightarrow> empty_dir | Some d0 \<Rightarrow> d0)
                      \<lparr>lock_file := Some (pid st0)\<rparr>) \<and>
            temp (disk (snd (acquireLock F n retryDelay st0))) = temp (disk st0) \<and>
            backup (disk (snd (acquireLock F n retryDelay st0))) = backup (disk st0) \<and>
            events (snd (acquireLock F n retryDelay st0)) = events st0 @ [LockAcquired] \<and>
            fst (acquireLock F maxRetries retryDelay (snd (acquireLock F n retryDelay st0))) =
              Inl LockAcquisitionTimeoutError"
      by blast
  qed
  from w a s1 s2 s3 s4 s5 s6 s7 c1 c2 show ?thesis by blast
qed

theorem acquireLock_exclusive_retry_timeout_witness:
  "no_faults MkdirIndexDir = None \<and> no_faults WriteLock = None \<and>
   production (disk (new_VectorStore 7 fs_A_stale_lock)) = Some (dir_A\<lparr>lock_file := Some 4242\<rparr>) \<and>
   lock_file (dir_A\<lparr>lock_file := Some 4242\<rparr>) = Some 4242 \<and>
   writeFile_lock_wx no_faults (new_VectorStore 7 fs_A_stale_lock) =
     (Inl (SysError EEXIST), new_VectorStore 7 fs_A_stale_lock) \<and>
   fst (acquireLock no_faults 3 1000 (new_VectorStore 7 fs_A_stale_lock)) =
     Inl LockAcquisitionTimeoutError \<and>
   events (snd (acquireLock no_faults 3 1000 (new_VectorStore 7 fs_A_stale_lock))) =
     [LockWait 1000, LockWait 1000, LockWait 1000] \<and>
   fst (save no_faults gen_B stats_B (new_VectorStore 7 fs_A_stale_lock)) =
     Inl LockAcquisitionTimeoutError \<and>
   production (disk (snd (save no_faults gen_B stats_B (new_VectorStore 7 fs_A_stale_lock)))) =
     Some dir_A \<and>
   production (disk (new_VectorStore 7 fs_A)) = Some dir_A \<and> lock_file dir_A = None \<and>
   \<not> lock_exists (disk (new_VectorStore 7 fs_A)) \<and> (0::nat) < 30 \<and>
   fst (writeFile_lock_wx no_faults (new_VectorStore 7 fs_A)) = Inr () \<and>
   production (disk (snd (writeFile_lock_wx no_faults (new_VectorStore 7 fs_A)))) =
     Some (dir_A\<lparr>lock_file := Some 7\<rparr>) \<and>
   fst (acquireLock no_faults 30 1000 (new_VectorStore 7 fs_A)) = Inr () \<and>
   production (disk (snd (acquireLock no_faults 30 1000 (new_VectorStore 7 fs_A)))) =
     Some (dir_A\<lparr>lock_file := Some 7\<rparr>) \<and>
   events (snd (acquireLock no_faults 30 1000 (new_VectorStore 7 fs_A))) = [LockAcquired] \<and>
   fst (acquireLock no_faults 3 1000 (snd (acquireLock no_faults 30 1000 (new_VectorStore 7 fs_A)))) =
     Inl LockAcquisitionTimeoutError"
proof -
  have h1: "no_faults MkdirIndexDir = None" and h2: "no_faults WriteLock = None"
    and h5: "no_faults UnlinkLock = None"
    by (simp_all add: no_faults_def)
  have h3: "production (disk (new_VectorStore 7 fs_A_stale_lock)) = Some (dir_A\<lparr>lock_file := Some 4242\<rparr>)"
    by (simp add: new_VectorStore_def fs_A_stale_lock_def)
  have h4: "lock_file (dir_A\<lparr>lock_file := Some 4242\<rparr>) = Some 4242" by simp
  have e: "events (new_VectorStore 7 fs_A_stale_lock) = []" by (simp add: new_VectorStore_def)
  have r: "replicate 3 (LockWait 1000) = [LockWait 1000, LockWait 1000, LockWait 1000]"
    by (simp add: numeral_3_eq_3)
  have dA: "dir_A\<lparr>lock_file := None\<rparr> = dir_A" by (simp add: dir_A_def)
  have k1: "production (disk (new_VectorStore 7 fs_A)) = Some dir_A"
    and k2: "lock_file dir_A = None"
    and k3: "\<not> lock_exists (disk (new_VectorStore 7 fs_A))"
    and k4: "events (new_VectorStore 7 fs_A) = []"
    and k5: "pid (new_VectorStore 7 fs_A) = 7"
    by (simp_all add: new_VectorStore_def fs_A_def dir_A_def lock_exists_def)
  have k6: "(0::nat) < 30" by simp
  note t = acquireLock_exclusive_retry_timeout[OF h1 h2 h3 h4,
             of 3 1000 gen_B stats_B "new_VectorStore 7 fs_A" 30]
  from t have old: "writeFile_lock_wx no_faults (new_VectorStore 7 fs_A_stale_lock) =
     (Inl (SysError EEXIST), new_VectorStore 7 fs_A_stale_lock) \<and>
   fst (acquireLock no_faults 3 1000 (new_VectorStore 7 fs_A_stale_lock)) =
     Inl LockAcquisitionTimeoutError \<and>
   events (snd (acquireLock no_faults 3 1000 (new_VectorStore 7 fs_A_stale_lock))) =
     [LockWait 1000, LockWait 1000, LockWait 1000] \<and>
   fst (save no_faults gen_B stats_B (new_VectorStore 7 fs_A_stale_lock)) =
     Inl LockAcquisitionTimeoutError \<and>
   production (disk (snd (save no_faults gen_B stats_B (new_VectorStore 7 fs_A_stale_lock)))) =
     Some dir_A"
    by (simp add: h5 e r dA)
  from t k1 k2 have "writeFile_lock_wx no_faults (new_VectorStore 7 fs_A) =
     (Inr (), put_disk ((disk (new_VectorStore 7 fs_A))\<lparr>production :=
                           Some (dir_A\<lparr>lock_file := Some (pid (new_VectorStore 7 fs_A))\<rparr>)\<rparr>)
                (new_VectorStore 7 fs_A))"
    by blast
  then have w: "fst (writeFile_lock_wx no_faults (new_VectorStore 7 fs_A)) = Inr () \<and>
   production (disk (snd (writeFile_lock_wx no_faults (new_VectorStore 7 fs_A)))) =
     Some (dir_A\<lparr>lock_file := Some 7\<rparr>)"
    by (simp add: put_disk_def k5)
  from t k3 k6 have "fst (acquireLock no_faults 30 1000 (new_VectorStore 7 fs_A)) = Inr () \<and>
   production (disk (snd (acquireLock no_faults 30 1000 (new_VectorStore 7 fs_A)))) =
     Some ((case production (disk (new_VectorStore 7 fs_A)) of None \<Rightarrow> empty_dir | Some d0 \<Rightarrow> d0)
             \<lparr>lock_file := Some (pid (new_VectorStore 7 fs_A))\<rparr>) \<and>
   events (snd (acquireLock no_faults 30 1000 (new_VectorStore 7 fs_A))) =
     events (new_VectorStore 7 fs_A) @ [LockAcquired] \<and>
   fst (acquireLock no_faults 3 1000 (snd (acquireLock no_faults 30 1000 (new_VectorStore 7 fs_A)))) =
     Inl LockAcquisitionTimeoutError"
    by blast
  then have a: "fst (acquireLock no_faults 30 1000 (new_VectorStore 7 fs_A)) = Inr () \<and>
   production (disk (snd (acquireLock no_faults 30 1000 (new_VectorStore 7 fs_A)))) =
     Some (dir_A\<lparr>lock_file := Some 7\<rparr>) \<and>
   events (snd (acquireLock no_faults 30 1000 (new_VectorStore 7 fs_A))) = [LockAcquired] \<and>
   fst (acquireLock no_faults 3 1000 (snd (acquireLock no_faults 30 1000 (new_VectorStore 7 fs_A)))) =
     Inl LockAcquisitionTimeoutError"
    by (simp add: k1 k4 k5)
  from h1 h2 h3 h4 old k1 k2 k3 k6 w a show ?thesis by blast
qed

subsection \<open>What acquireLock can return\<close>

lemma acquireLock_loop_result:
  "acquireLock_loop F m d r st = (res, st') \<Longrightarrow>
     (\<exists>ev. events st' = events st @ ev) \<and>
     listeners st' = listeners st \<and> reload_calls st' = reload_calls st \<and>
     (case res of
        Inr u \<Rightarrow> lock_exists (disk st')
      | Inl e \<Rightarrow> e = LockAcquisitionTimeoutError \<or> (\<exists>x. e = SysError x))"
proof (induction F m d r st arbitrary: res st' rule: acquireLock_loop.induct)
  case (1 F maxRetries retryDelay retries st)
  show ?case
  proof (cases "retries < maxRetries")
    case False
    with "1.prems" show ?thesis
      by (subst (asm) acquireLock_loop.simps) (auto simp: LockAcquisitionTimeoutError_def)
  next
    case True
    obtain r1 st1 where step: "bind_io (mkdir_indexPath F) (\<lambda>_. writeFile_lock_wx F) st = (r1, st1)"
      by (cases "bind_io (mkdir_indexPath F) (\<lambda>_. writeFile_lock_wx F) st") auto
    have ev1: "events st1 = events st \<and> listeners st1 = listeners st \<and> reload_calls st1 = reload_calls st"
      using step
      by (auto simp: bind_io_def mkdir_indexPath_def writeFile_lock_wx_def attempt_def put_disk_def
          split: option.splits)
    show ?thesis
    proof (cases r1)
      case (Inr u)
      have "lock_exists (disk st1)"
        using step Inr
        by (auto simp: bind_io_def mkdir_indexPath_def writeFile_lock_wx_def attempt_def
            put_disk_def lock_exists_def split: option.splits)
      with "1.prems" True step Inr ev1 show ?thesis
        by (subst (asm) acquireLock_loop.simps) (auto simp: log_event_def)
    next
      case (Inl e)
      show ?thesis
      proof (cases "e = SysError EEXIST")
        case False
        with "1.prems" True step Inl ev1 have "res = Inl e" "st' = st1"
          by (subst (asm) acquireLock_loop.simps, simp)+
        moreover have "\<exists>x. e = SysError x"
          using step Inl
          by (auto simp: bind_io_def mkdir_indexPath_def writeFile_lock_wx_def attempt_def
              put_disk_def split: option.splits)
        ultimately show ?thesis using ev1 by auto
      next
        case e: True
        from "1.prems" True step Inl e
        have rec: "acquireLock_loop F maxRetries retryDelay (retries + 1) (sleep retryDelay st1) = (res, st')"
          by (subst (asm) acquireLock_loop.simps) simp
        from "1.IH"[OF True step[symmetric] Inl e rec]
        show ?thesis using ev1 by (auto simp: sleep_def log_event_def)
      qed
    qed
  qed
qed

lemma acquireLock_events:
  "\<exists>ev. events (snd (acquireLock F m d st)) = events st @ ev"
  using acquireLock_loop_result[of F m d 0 st "fst (acquireLock F m d st)" "snd (acquireLock F m d st)"]
  by (simp add: acquireLock_def)

lemma acquireLock_Inr_lock:
  "acquireLock F m d st = (Inr u, st') \<Longrightarrow> lock_exists (disk st')"
  using acquireLock_loop_result[of F m d 0 st "Inr u" st'] by (simp add: acquireLock_def)

lemma acquireLock_Inl_kind:
  "acquireLock F m d st = (Inl e, st') \<Longrightarrow> e = LockAcquisitionTimeoutError \<or> (\<exists>x. e = SysError x)"
  using acquireLock_loop_result[of F m d 0 st "Inl e" st'] by (simp add: acquireLock_def)

subsection \<open>The calls recorded by save and load\<close>

lemma bind_io_events:
  assumes "\<And>st. \<exists>ev. events (snd (m st)) = events st @ ev"
    and "\<And>a st. \<exists>ev. events (snd (f a st)) = events st @ ev"
  shows "\<exists>ev. events (snd (bind_io m f st)) = events st @ ev"
proof (cases "m st")
  case (Pair r st1)
  from assms(1)[of st] Pair obtain ev1 where e1: "events st1 = events st @ ev1" by auto
  show ?thesis
  proof (cases r)
    case (Inl e)
    with Pair e1 show ?thesis by (simp add: bind_io_def)
  next
    case (Inr a)
    from assms(2)[of a st1] obtain ev2 where "events (snd (f a st1)) = events st1 @ ev2" by auto
    with Pair Inr e1 show ?thesis by (simp add: bind_io_def)
  qed
qed

lemma prim_events:
  "events (snd (mkdir_parent F st)) = events st"
  "events (snd (faiss_save_temp F g st)) = events st"
  "events (snd (writeFile_stats F s st)) = events st"
  "events (snd (rm_backup F st)) = events st"
  "events (snd (rename_prod_backup F st)) = events st"
  "events (snd (rename_temp_prod F st)) = events st"
  "events (snd (faiss_load F st)) = events st"
  by (auto simp: mkdir_parent_def faiss_save_temp_def writeFile_stats_def rm_backup_def
      rename_prod_backup_def rename_temp_prod_def faiss_load_def attempt_def put_disk_def
      split: option.splits sum.splits)

lemma swap_out_events: "events (snd (swap_out F st)) = events st"
  by (cases "rm_backup F st")
     (auto simp: swap_out_def bind_io_def prim_events split: sum.splits prod.splits
           dest: arg_cong[where f="\<lambda>p. events (snd p)"])

lemma releaseLock_events: "events (releaseLock F st) = events st @ [ReleaseLockCalled]"
  by (simp add: releaseLock_def log_event_def put_disk_def Let_def split: option.splits)

lemma releaseLock_unlocks: "F UnlinkLock = None \<Longrightarrow> \<not> lock_exists (disk (releaseLock F st))"
  by (simp add: releaseLock_def log_event_def put_disk_def Let_def lock_exists_def
      split: option.splits)

lemma loadStats_events: "events (loadStats F st) = events st"
  by (simp add: loadStats_def split: option.splits sidecar.splits)

lemma save_body_events: "\<exists>ev. events (snd (save_body F g s st)) = events st @ ev"
  unfolding save_body_def
  apply (rule bind_io_events, rule acquireLock_events)
  apply (rule bind_io_events, simp add: prim_events)
  apply (rule bind_io_events, simp add: prim_events)
  apply (rule bind_io_events, simp add: prim_events)
  apply (rule bind_io_events, simp add: swap_out_events)
  apply (rule bind_io_events, simp add: prim_events)
  apply (simp add: emit_indexUpdated_def log_event_def releaseLock_events)
  done

lemma load_tail_events:
  "\<exists>ev. events (snd (bind_io (faiss_load F)
            (\<lambda>g st1. (Inr g, releaseLock F (loadStats F (st1\<lparr>vectorStore := Some g\<rparr>)))) st)) =
         events st @ ev"
  by (rule bind_io_events) (simp_all add: prim_events releaseLock_events loadStats_events)

lemma load_body_events: "\<exists>ev. events (snd (load_body F st)) = events st @ ev"
  unfolding load_body_def
proof (rule bind_io_events, rule acquireLock_events)
  fix a :: unit and st :: state
  show "\<exists>ev. events (snd (if production (disk st) = None
                   then (Inl (Error (''Index not found at '' @ indexPath)), st)
                   else bind_io (faiss_load F)
                         (\<lambda>g st1. (Inr g, releaseLock F (loadStats F (st1\<lparr>vectorStore := Some g\<rparr>)))) st)) =
             events st @ ev"
    using load_tail_events[of F st] by (cases "production (disk st) = None") simp_all
qed

lemma catch_release_error:
  assumes "fst (catch_io m (\<lambda>e st. (Inl e, releaseLock F st)) st) = Inl e"
    and "\<And>st. \<exists>ev. events (snd (m st)) = events st @ ev"
  shows "(\<exists>ev. events (snd (catch_io m (\<lambda>e st. (Inl e, releaseLock F st)) st)) =
            events st @ ev @ [ReleaseLockCalled]) \<and>
         (F UnlinkLock = None \<longrightarrow>
            \<not> lock_exists (disk (snd (catch_io m (\<lambda>e st. (Inl e, releaseLock F st)) st))))"
proof (cases "m st")
  case (Pair r st1)
  from assms(2)[of st] Pair obtain ev where ev: "events st1 = events st @ ev" by auto
  from assms(1) Pair obtain e' where r: "r = Inl e'" by (cases r) (auto simp: catch_io_def)
  from Pair r have fin: "catch_io m (\<lambda>e st. (Inl e, releaseLock F st)) st = (Inl e', releaseLock F st1)"
    by (simp add: catch_io_def)
  show ?thesis using ev by (simp add: fin releaseLock_events releaseLock_unlocks)
qed

text \<open>
  C5: whenever \<^verbatim>\<open>save\<close> or \<^verbatim>\<open>load\<close> ends with an error, whichever call failed and
  with whichever error, the last call recorded before the error reaches the caller is
  \<^verbatim>\<open>releaseLock\<close>; and unless the unlink inside \<^verbatim>\<open>releaseLock\<close> itself fails (which
  is logged and swallowed), no lock file is left at the lock path.
\<close>

theorem releaseLock_attempted_on_error:
  "(fst (save F g s st) = Inl e \<longrightarrow>
      (\<exists>ev. events (snd (save F g s st)) = events st @ ev @ [ReleaseLockCalled]) \<and>
      (F UnlinkLock = None \<longrightarrow> \<not> lock_exists (disk (snd (save F g s st))))) \<and>
   (fst (load F st) = Inl e \<longrightarrow>
      (\<exists>ev. events (snd (load F st)) = events st @ ev @ [ReleaseLockCalled]) \<and>
      (F UnlinkLock = None \<longrightarrow> \<not> lock_exists (disk (snd (load F st)))))"
  unfolding save_def load_def
  using catch_release_error[of "save_body F g s" F st e, OF _ save_body_events]
        catch_release_error[of "load_body F" F st e, OF _ load_body_events]
  by blast

theorem releaseLock_attempted_on_error_witness:
  "fst (save disk_full gen_B stats_B (new_VectorStore 7 fs_A)) = Inl (SysError ENOSPC) \<and>
   disk_full UnlinkLock = None \<and>
   (\<exists>ev. events (snd (save disk_full gen_B stats_B (new_VectorStore 7 fs_A))) =
      events (new_VectorStore 7 fs_A) @ ev @ [ReleaseLockCalled]) \<and>
   \<not> lock_exists (disk (snd (save disk_full gen_B stats_B (new_VectorStore 7 fs_A)))) \<and>
   fst (load disk_full (new_VectorStore 7 absent_fs)) = Inl (SysError ENOENT) \<and>
   (\<exists>ev. events (snd (load disk_full (new_VectorStore 7 absent_fs))) =
      events (new_VectorStore 7 absent_fs) @ ev @ [ReleaseLockCalled]) \<and>
   \<not> lock_exists (disk (snd (load disk_full (new_VectorStore 7 absent_fs))))"
proof -
  have h1: "fst (save disk_full gen_B stats_B (new_VectorStore 7 fs_A)) = Inl (SysError ENOSPC)"
    by (simp add: store_defs example_defs acquireLock_loop.simps io_defs)
  have h2: "fst (load disk_full (new_VectorStore 7 absent_fs)) = Inl (SysError ENOENT)"
    by (simp add: store_defs example_defs acquireLock_loop.simps io_defs)
  have h3: "disk_full UnlinkLock = None" by (simp add: disk_full_def)
  show ?thesis
    using releaseLock_attempted_on_error[of disk_full gen_B stats_B "new_VectorStore 7 fs_A"
            "SysError ENOSPC"]
          releaseLock_attempted_on_error[of disk_full gen_B stats_B "new_VectorStore 7 absent_fs"
            "SysError ENOENT"]
          h1 h2 h3
    by blast
qed

subsection \<open>load\<close>

lemma load_never_IndexNotFound: "fst (load F st) \<noteq> Inl IndexNotFoundError"
proof (cases "acquireLock F 30 1000 st")
  case (Pair r st1)
  show ?thesis
  proof (cases r)
    case (Inl e)
    with Pair acquireLock_Inl_kind[of F 30 1000 st e st1]
    show ?thesis
      by (auto simp: load_def load_body_def catch_io_def bind_io_def
          IndexNotFoundError_def LockAcquisitionTimeoutError_def)
  next
    case (Inr u)
    with Pair acquireLock_Inr_lock[of F 30 1000 st u st1]
    have "production (disk st1) \<noteq> None" by (auto simp: lock_exists_def split: option.splits)
    with Pair Inr show ?thesis
      by (auto simp: load_def load_body_def catch_io_def bind_io_def faiss_load_def attempt_def
          IndexNotFoundError_def split: option.splits)
  qed
qed

text \<open>
  C3 fails on the code. On a fresh store whose production path is absent,
  \<^verbatim>\<open>indexExists\<close> is false, as claimed, but \<^verbatim>\<open>load\<close> does not fail with the
  index-not-found error: \<^verbatim>\<open>acquireLock\<close> has created the directory for its lock file
  before the existence check runs, so the check passes, and the load fails inside
  \<^verbatim>\<open>FaissStore.load\<close> with \<^verbatim>\<open>ENOENT\<close>, leaving an empty production directory behind.
  (\<open>load_never_IndexNotFound\<close>: no call of \<^verbatim>\<open>load\<close> returns that error.)
\<close>

theorem load_absent_path_not_IndexNotFound:
  "\<not> indexExists (new_VectorStore 7 absent_fs) \<and>
   fst (load no_faults (new_VectorStore 7 absent_fs)) = Inl (SysError ENOENT) \<and>
   fst (load no_faults (new_VectorStore 7 absent_fs)) \<noteq> Inl IndexNotFoundError \<and>
   production (disk (snd (load no_faults (new_VectorStore 7 absent_fs)))) = Some empty_dir \<and>
   \<not> indexExists (snd (load no_faults (new_VectorStore 7 absent_fs)))"
  by (simp add: store_defs example_defs acquireLock_loop.simps io_defs indexExists_def
      IndexNotFoundError_def)

lemma load_reads_sidecar:
  assumes "F MkdirIndexDir = None" "F WriteLock = None" "F LoadIndex = None"
    and "production (disk st) = Some d" "lock_file d = None" "index_data d = Some g"
  shows "fst (load F st) = Inr g \<and>
         vectorStore (snd (load F st)) = Some g \<and>
         stats (snd (load F st)) =
           (case stats_json d of
              None \<Rightarrow> stats st
            | Some f \<Rightarrow>
                (case F ReadStats of
                   Some e \<Rightarrow> None
                 | None \<Rightarrow> (case f of ValidStats s \<Rightarrow> Some s | CorruptStats \<Rightarrow> None)))"
  using assms
  by (simp add: store_defs acquireLock_loop.simps[of F 30 1000 0] bind_io_def catch_io_def attempt_def
      mkdir_indexPath_def writeFile_lock_wx_def faiss_load_def put_disk_def log_event_def
      releaseLock_def loadStats_def lock_exists_def Let_def
      split: option.splits sidecar.splits)

text \<open>
  C4 fails on the code. A store that has loaded generation A with its statistics
  reloads from a disk that holds a readable generation B without \<^verbatim>\<open>stats.json\<close>: the
  load succeeds and returns B, but the statistics in memory are still those of A, not
  null. \<^verbatim>\<open>loadStats\<close> resets the statistics only when reading or parsing an existing
  sidecar fails (\<open>load_reads_sidecar\<close>).
\<close>

theorem load_missing_sidecar_keeps_stale_stats:
  "fst (load no_faults store_with_A_loaded) = Inr gen_B \<and>
   vectorStore (snd (load no_faults store_with_A_loaded)) = Some gen_B \<and>
   getStats (snd (load no_faults store_with_A_loaded)) = Some stats_A \<and>
   getStats (snd (load no_faults store_with_A_loaded)) \<noteq> None"
  by (simp add: store_defs example_defs acquireLock_loop.simps io_defs getStats_def)

subsection \<open>save\<close>

lemma save_passes_through_absent_production:
  assumes "production (disk st) = Some d" and "lock_file d = None" and "vectors g \<noteq> []"
  shows "history (snd (save no_faults g s st)) ! (length (history st) + (if backup (disk st) = None then 3 else 4))
           = \<lparr>production = None,
              temp = Some ((case temp (disk st) of None \<Rightarrow> empty_dir | Some t \<Rightarrow> t)
                       \<lparr>index_data := Some g, stats_json := Some (ValidStats s)\<rparr>),
              backup = Some (d\<lparr>lock_file := Some (pid st)\<rparr>)\<rparr>"
  using assms
  by (cases "temp (disk st)"; cases "backup (disk st)")
     (simp_all add: store_defs acquireLock_loop.simps[of _ 30 1000 0] io_defs Let_def nth_append
        split: option.splits)

lemma save_production_never_mixed:
  assumes "\<not> lock_exists (disk st)"
  shows "\<forall>f \<in> set (drop (length (history st)) (history (snd (save no_faults g s st)))).
           visible f = visible (disk st) \<or> visible f = None \<or> visible f = Some (None, None) \<or>
           visible f = Some (Some g, Some (ValidStats s))"
  using assms
  by (cases "production (disk st)"; cases "temp (disk st)"; cases "backup (disk st)")
     (simp_all add: store_defs acquireLock_loop.simps[of _ 30 1000 0] io_defs Let_def visible_def
        split: option.splits)

text \<open>
  C1 fails on the code. Saving generation B over generation A changes the disk five
  times (lock file, index artifacts in the temporary directory, sidecar in the temporary
  directory, rename of production to backup, rename of temporary to production). After
  the fourth change and before the fifth the production path does not exist: neither
  generation A nor generation B is there. The lock file has moved to the backup path
  with the directory that held it. (\<open>save_passes_through_absent_production\<close>: every
  save of a store that holds vectors over an existing production directory goes through
  such a state;
  \<open>save_production_never_mixed\<close>: the two generations are never mixed there.)
\<close>

theorem save_swap_leaves_production_absent:
  "fst (save no_faults gen_B stats_B (new_VectorStore 7 fs_A)) = Inr () \<and>
   map production (history (snd (save no_faults gen_B stats_B (new_VectorStore 7 fs_A)))) =
     [Some (dir_A\<lparr>lock_file := Some 7\<rparr>), Some (dir_A\<lparr>lock_file := Some 7\<rparr>),
      Some (dir_A\<lparr>lock_file := Some 7\<rparr>), None, Some dir_B] \<and>
   disk (snd (save no_faults gen_B stats_B (new_VectorStore 7 fs_A))) =
     \<lparr>production = Some dir_B, temp = None, backup = Some (dir_A\<lparr>lock_file := Some 7\<rparr>)\<rparr>"
  by (simp add: store_defs example_defs acquireLock_loop.simps io_defs)

section \<open>Properties of the crawler route\<close>

lemma run_router_invariant:
  assumes "children r \<le> 1" and "crawlInProgress r \<longleftrightarrow> children r = 1"
  shows "children (run_router es r) \<le> 1 \<and>
         (crawlInProgress (run_router es r) \<longleftrightarrow> children (run_router es r) = 1)"
  using assms
proof (induction es arbitrary: r)
  case Nil
  then show ?case by simp
next
  case (Cons e es)
  show ?case
  proof (cases e)
    case Trigger
    have "children (snd (trigger r)) \<le> 1"
      and "crawlInProgress (snd (trigger r)) \<longleftrightarrow> children (snd (trigger r)) = 1"
      using Cons.prems by (auto simp: trigger_def)
    from Cons.IH[OF this] Trigger show ?thesis by simp
  next
    case Close
    let ?r' = "if children r = 0 then r else on_close r"
    have "children ?r' \<le> 1" and "crawlInProgress ?r' \<longleftrightarrow> children ?r' = 1"
      using Cons.prems by (auto simp: on_close_def)
    from Cons.IH[OF this] Close show ?thesis by simp
  qed
qed

text \<open>
  C9: a trigger request that arrives while the flag \<^verbatim>\<open>crawlInProgress\<close> is set fails
  at once with the already-in-progress error (status 409); it spawns nothing and leaves
  the router as it was, so nothing is queued. A request that finds the flag clear is
  accepted (202), sets the flag and spawns one crawler. Over every sequence of requests
  and process exits, starting from a new router, at most one spawned crawler is running,
  and the flag is set exactly while one is. The flag is a field of the router alone: no
  filesystem state is involved.
\<close>

theorem trigger_fails_fast_while_in_progress:
  "(crawlInProgress r \<longrightarrow> trigger r = (Inl BuildAlreadyInProgressError, r)) \<and>
   (\<not> crawlInProgress r \<longrightarrow>
      trigger r =
        (Inr \<lparr>status_code = 202, body_status = ''accepted'',
              body_message = ''Crawl started in background''\<rparr>,
         r\<lparr>crawlInProgress := True, children := children r + 1\<rparr>)) \<and>
   children (run_router es createCrawlerRouter) \<le> 1 \<and>
   (crawlInProgress (run_router es createCrawlerRouter) \<longleftrightarrow>
      children (run_router es createCrawlerRouter) = 1)"
proof -
  have "children (run_router es createCrawlerRouter) \<le> 1 \<and>
        (crawlInProgress (run_router es createCrawlerRouter) \<longleftrightarrow>
           children (run_router es createCrawlerRouter) = 1)"
    by (rule run_router_invariant) (simp_all add: createCrawlerRouter_def)
  then show ?thesis
    by (simp add: trigger_def BuildAlreadyInProgressError_def)
qed

theorem trigger_fails_fast_while_in_progress_witness:
  "crawlInProgress busy_router \<and>
   trigger busy_router = (Inl BuildAlreadyInProgressError, busy_router) \<and>
   \<not> crawlInProgress createCrawlerRouter \<and>
   snd (trigger createCrawlerRouter) = busy_router \<and>
   children (run_router [Trigger, Trigger, Close, Trigger, Trigger] createCrawlerRouter) \<le> 1"
proof -
  have h1: "crawlInProgress busy_router" by (simp add: busy_router_def)
  have h2: "\<not> crawlInProgress createCrawlerRouter" by (simp add: createCrawlerRouter_def)
  have e: "createCrawlerRouter\<lparr>crawlInProgress := True, children := children createCrawlerRouter + 1\<rparr>
           = busy_router"
    by (simp add: createCrawlerRouter_def busy_router_def)
  have a: "trigger busy_router = (Inl BuildAlreadyInProgressError, busy_router)"
    using trigger_fails_fast_while_in_progress[of busy_router "[]"] h1 by blast
  have b: "children (run_router [Trigger, Trigger, Close, Trigger, Trigger] createCrawlerRouter) \<le> 1"
    using trigger_fails_fast_while_in_progress[of createCrawlerRouter
            "[Trigger, Trigger, Close, Trigger, Trigger]"] by blast
  have "trigger createCrawlerRouter =
        (Inr \<lparr>status_code = 202, body_status = ''accepted'',
              body_message = ''Crawl started in background''\<rparr>,
         createCrawlerRouter\<lparr>crawlInProgress := True, children := children createCrawlerRouter + 1\<rparr>)"
    using trigger_fails_fast_while_in_progress[of createCrawlerRouter "[]"] h2 by blast
  then have c: "snd (trigger createCrawlerRouter) = busy_router" by (simp only: e snd_conv)
  from a b c h1 h2 show ?thesis by blast
qed

section \<open>Properties of the query route\<close>

lemma post_query_state_unchanged: "snd (post_query call req st) = st"
  by (simp add: post_query_def Let_def split: option.splits sum.splits)

text \<open>
  C8 as stated fails: a query against a store with nothing loaded does not give the
  caller the not-loaded error. The route catches it and raises the generic
  \<^verbatim>\<open>AppError('Failed to process query', 500)\<close>.
\<close>

theorem post_query_no_index_counterexample:
  "fst (post_query first_hits_chain request_A (new_VectorStore 7 absent_fs)) =
     Inl (AppError ''Failed to process query'' 500) \<and>
   fst (post_query first_hits_chain request_A (new_VectorStore 7 absent_fs)) \<noteq>
     Inl IndexUnavailableError"
  by (simp add: post_query_def request_A_def new_VectorStore_def getVectorStore_def
      IndexUnavailableError_def trim_def is_ws_def)

text \<open>
  C8, amended: for every query with a non-blank text issued when no generation is
  loaded, \<^verbatim>\<open>getVectorStore\<close> raises the not-loaded error, and the query route fails and
  gives the caller the generic error \<^verbatim>\<open>AppError('Failed to process query', 500)\<close>, the
  one it gives for every failure inside its \<^verbatim>\<open>try\<close> block; the store is left exactly
  as it was (as it is by every query).
\<close>

theorem post_query_no_index_generic_error:
  assumes "vectorStore st = None" and "req_query req = Some q" and "trim q \<noteq> []"
  shows "getVectorStore st = Inl IndexUnavailableError \<and>
         post_query call req st = (Inl (AppError ''Failed to process query'' 500), st) \<and>
         snd (post_query call req' st') = st'"
proof -
  from assms(3) have "q \<noteq> []" by (auto simp: trim_def)
  with assms have "post_query call req st = (Inl (AppError ''Failed to process query'' 500), st)"
    by (simp add: post_query_def getVectorStore_def Let_def)
  moreover from assms(1) have "getVectorStore st = Inl IndexUnavailableError"
    by (simp add: getVectorStore_def IndexUnavailableError_def)
  ultimately show ?thesis
    using post_query_state_unchanged[of call req' st'] by simp
qed

theorem post_query_no_index_generic_error_witness:
  "vectorStore (new_VectorStore 7 absent_fs) = None \<and>
   req_query request_A = Some ''what is new?'' \<and>
   trim ''what is new?'' \<noteq> [] \<and>
   getVectorStore (new_VectorStore 7 absent_fs) = Inl IndexUnavailableError \<and>
   post_query first_hits_chain request_A (new_VectorStore 7 absent_fs) =
     (Inl (AppError ''Failed to process query'' 500), new_VectorStore 7 absent_fs)"
proof -
  have h1: "vectorStore (new_VectorStore 7 absent_fs) = None" by (simp add: new_VectorStore_def)
  have h2: "req_query request_A = Some ''what is new?''" by (simp add: request_A_def)
  have h3: "trim ''what is new?'' \<noteq> []" by (simp add: trim_def is_ws_def)
  show ?thesis
    using post_query_no_index_generic_error[OF h1 h2 h3, of first_hits_chain] h1 h2 h3
    by simp
qed

section \<open>Properties of the index watcher\<close>

lemma bind_io_quiet:
  assumes "\<And>st. listeners st = 0 \<and> reload_calls st = n \<Longrightarrow>
             listeners (snd (m st)) = 0 \<and> reload_calls (snd (m st)) = n"
    and "\<And>a st. listeners st = 0 \<and> reload_calls st = n \<Longrightarrow>
             listeners (snd (f a st)) = 0 \<and> reload_calls (snd (f a st)) = n"
    and "listeners st = 0 \<and> reload_calls st = n"
  shows "listeners (snd (bind_io m f st)) = 0 \<and> reload_calls (snd (bind_io m f st)) = n"
proof (cases "m st")
  case (Pair r st1)
  from assms(1)[OF assms(3)] Pair have q1: "listeners st1 = 0 \<and> reload_calls st1 = n" by simp
  show ?thesis
  proof (cases r)
    case (Inl e)
    with Pair q1 show ?thesis by (simp add: bind_io_def)
  next
    case (Inr a)
    with Pair assms(2)[OF q1, of a] show ?thesis by (simp add: bind_io_def)
  qed
qed

lemma acquireLock_quiet:
  "listeners (snd (acquireLock F m d st)) = listeners st \<and>
   reload_calls (snd (acquireLock F m d st)) = reload_calls st"
  using acquireLock_loop_result[of F m d 0 st "fst (acquireLock F m d st)" "snd (acquireLock F m d st)"]
  by (simp add: acquireLock_def)

lemma prim_quiet:
  "listeners (snd (mkdir_parent F st)) = listeners st \<and> reload_calls (snd (mkdir_parent F st)) = reload_calls st"
  "listeners (snd (faiss_save_temp F g st)) = listeners st \<and> reload_calls (snd (faiss_save_temp F g st)) = reload_calls st"
  "listeners (snd (writeFile_stats F s st)) = listeners st \<and> reload_calls (snd (writeFile_stats F s st)) = reload_calls st"
  "listeners (snd (rm_backup F st)) = listeners st \<and> reload_calls (snd (rm_backup F st)) = reload_calls st"
  "listeners (snd (rename_prod_backup F st)) = listeners st \<and> reload_calls (snd (rename_prod_backup F st)) = reload_calls st"
  "listeners (snd (rename_temp_prod F st)) = listeners st \<and> reload_calls (snd (rename_temp_prod F st)) = reload_calls st"
  by (auto simp: mkdir_parent_def faiss_save_temp_def writeFile_stats_def rm_backup_def
      rename_prod_backup_def rename_temp_prod_def attempt_def put_disk_def
      split: option.splits sum.splits)

lemma releaseLock_quiet:
  "listeners (releaseLock F st) = listeners st \<and> reload_calls (releaseLock F st) = reload_calls st"
  by (simp add: releaseLock_def log_event_def put_disk_def Let_def split: option.splits)

lemma swap_out_quiet:
  "listeners (snd (swap_out F st)) = listeners st \<and> reload_calls (snd (swap_out F st)) = reload_calls st"
proof -
  have "listeners (snd (rm_backup F st)) = listeners st \<and> reload_calls (snd (rm_backup F st)) = reload_calls st"
    by (rule prim_quiet)
  then show ?thesis
    by (cases "rm_backup F st") (auto simp: swap_out_def bind_io_def prim_quiet split: sum.splits)
qed

lemma save_body_quiet:
  assumes "listeners st = 0 \<and> reload_calls st = n"
  shows "listeners (snd (save_body F g s st)) = 0 \<and> reload_calls (snd (save_body F g s st)) = n"
  unfolding save_body_def
  apply (rule bind_io_quiet[OF _ _ assms], simp add: acquireLock_quiet)
  apply (rule bind_io_quiet, simp add: prim_quiet)
   apply (rule bind_io_quiet, simp add: prim_quiet)
    apply (rule bind_io_quiet, simp add: prim_quiet)
     apply (rule bind_io_quiet, simp add: swap_out_quiet)
      apply (rule bind_io_quiet, simp add: prim_quiet)
       apply (simp_all add: emit_indexUpdated_def log_event_def releaseLock_quiet)
  done

lemma save_quiet:
  assumes "listeners st = 0 \<and> reload_calls st = n"
  shows "listeners (snd (save F g s st)) = 0 \<and> reload_calls (snd (save F g s st)) = n"
proof (cases "save_body F g s st")
  case (Pair r st1)
  from save_body_quiet[OF assms, of F g s] Pair
  have "listeners st1 = 0 \<and> reload_calls st1 = n" by simp
  with Pair show ?thesis
    by (cases r) (simp_all add: save_def catch_io_def releaseLock_quiet)
qed

lemma run_process_quiet:
  assumes "listeners (fst p) = 0" and "\<not> watcher (snd p)" and "reload_calls (fst p) = n"
  shows "listeners (fst (run_process F acts p)) = 0 \<and> \<not> watcher (snd (run_process F acts p)) \<and>
         reload_calls (fst (run_process F acts p)) = n"
  using assms
proof (induction acts arbitrary: p)
  case Nil
  then show ?case by simp
next
  case (Cons a acts)
  show ?case
  proof (cases a)
    case (FsEvent t f)
    have "on_fs_event t f p = p" using Cons.prems(2) by (cases p) (simp add: on_fs_event_def)
    with Cons.IH[OF Cons.prems] FsEvent show ?thesis by simp
  next
    case (SaveCall g s)
    let ?p' = "(snd (save F g s (fst p)), snd p)"
    from save_quiet[of "fst p" n F g s] Cons.prems
    have "listeners (fst ?p') = 0" "\<not> watcher (snd ?p')" "reload_calls (fst ?p') = n" by simp_all
    from Cons.IH[OF this] SaveCall show ?thesis by simp
  qed
qed

text \<open>
  C10: when the index path does not exist, \<^verbatim>\<open>start\<close> returns with nothing changed:
  no filesystem watcher and no \<^verbatim>\<open>'indexUpdated'\<close> listener is registered. If none was
  registered before either, then whatever follows in that process without another
  \<^verbatim>\<open>start\<close> (filesystem events of the index directory, calls of \<^verbatim>\<open>save\<close>, successful or
  not, with the event they emit) never invokes the reload callback.
\<close>

theorem start_on_absent_path_registers_nothing:
  assumes "production (disk st) = None"
  shows "start (st, iw) = (st, iw) \<and>
         (listeners st = 0 \<and> \<not> watcher iw \<longrightarrow>
            reload_calls (fst (run_process F acts (start (st, iw)))) = reload_calls st \<and>
            listeners (fst (run_process F acts (start (st, iw)))) = 0 \<and>
            \<not> watcher (snd (run_process F acts (start (st, iw)))))"
proof -
  have s: "start (st, iw) = (st, iw)" using assms by (simp add: start_def)
  show ?thesis
    using run_process_quiet[of "(st, iw)" "reload_calls st" F acts] by (auto simp: s)
qed

theorem start_on_absent_path_registers_nothing_witness:
  "production (disk (new_VectorStore 7 absent_fs)) = None \<and>
   listeners (new_VectorStore 7 absent_fs) = 0 \<and> \<not> watcher new_IndexWatcher \<and>
   start (new_VectorStore 7 absent_fs, new_IndexWatcher) =
     (new_VectorStore 7 absent_fs, new_IndexWatcher) \<and>
   reload_calls (fst (run_process no_faults
      [SaveCall gen_B stats_B, FsEvent ''change'' ''stats.json'']
      (start (new_VectorStore 7 absent_fs, new_IndexWatcher)))) = 0"
proof -
  have h1: "production (disk (new_VectorStore 7 absent_fs)) = None"
    by (simp add: new_VectorStore_def absent_fs_def)
  have h2: "listeners (new_VectorStore 7 absent_fs) = 0" "\<not> watcher new_IndexWatcher"
    "reload_calls (new_VectorStore 7 absent_fs) = 0"
    by (simp_all add: new_VectorStore_def new_IndexWatcher_def)
  note t = start_on_absent_path_registers_nothing[OF h1, of new_IndexWatcher no_faults
            "[SaveCall gen_B stats_B, FsEvent ''change'' ''stats.json'']"]
  from t have a: "start (new_VectorStore 7 absent_fs, new_IndexWatcher) =
     (new_VectorStore 7 absent_fs, new_IndexWatcher)" by blast
  from t h2(1,2) have "reload_calls (fst (run_process no_faults
      [SaveCall gen_B stats_B, FsEvent ''change'' ''stats.json'']
      (start (new_VectorStore 7 absent_fs, new_IndexWatcher)))) =
      reload_calls (new_VectorStore 7 absent_fs)" by blast
  then have b: "reload_calls (fst (run_process no_faults
      [SaveCall gen_B stats_B, FsEvent ''change'' ''stats.json'']
      (start (new_VectorStore 7 absent_fs, new_IndexWatcher)))) = 0"
    by (simp only: h2(3))
  from h1 h2(1,2) a b show ?thesis by blast
qed

text \<open>For contrast: started on an existing index path, the watcher reacts to both
  signals.\<close>

lemma start_on_existing_path_reloads:
  "reload_calls (fst (run_process no_faults
      [SaveCall gen_B stats_B, FsEvent ''change'' ''stats.json'']
      (start (new_VectorStore 7 fs_A, new_IndexWatcher)))) = 2"
  by (simp add: start_def on_fs_event_def new_IndexWatcher_def store_defs example_defs
      acquireLock_loop.simps io_defs)

section \<open>Properties of the chunker\<close>

subsection \<open>The fixed segments of the specification\<close>










subsection \<open>The splitter on a text without white space\<close>

lemma trim_nonblank_iff: "trim s \<noteq> [] \<longleftrightarrow> (\<exists>c \<in> set s. \<not> is_ws c)"
proof
  assume "trim s \<noteq> []"
  moreover have "dropWhile is_ws s = [] \<Longrightarrow> trim s = []"
    by (simp add: trim_def del: dropWhile_eq_Nil_conv)
  ultimately have "dropWhile is_ws s \<noteq> []" by blast
  then show "\<exists>c \<in> set s. \<not> is_ws c"
    by (auto simp: dropWhile_eq_Nil_conv dest: set_dropWhileD)
next
  assume "\<exists>c \<in> set s. \<not> is_ws c"
  then have a: "dropWhile is_ws s \<noteq> []" by (simp add: dropWhile_eq_Nil_conv)
  then have "\<not> is_ws (hd (dropWhile is_ws s))" by (rule hd_dropWhile)
  moreover have "hd (dropWhile is_ws s) \<in> set (rev (dropWhile is_ws s))" using a by simp
  ultimately have "dropWhile is_ws (rev (dropWhile is_ws s)) \<noteq> []"
    by (auto simp: dropWhile_eq_Nil_conv)
  then show "trim s \<noteq> []" by (simp add: trim_def)
qed


lemma join_with_empty: "join_with [] ds = concat ds"
proof (induction ds)
  case Nil
  show ?case by simp
next
  case (Cons d ds)
  then show ?case by (cases ds) simp_all
qed

lemma concat_singletons: "concat (map (\<lambda>c. [c]) u) = u"
  by (induction u) simp_all








lemma splitOnSeparator_chars: "splitOnSeparator t [] = map (\<lambda>c. [c]) t"
  by (induction t) (simp_all add: splitOnSeparator_def)





subsection \<open>The splitter on a text that fits into one chunk\<close>

lemma split_before_concat: "concat (split_before sep t) = t"
proof (induction t)
  case Nil
  show ?case by simp
next
  case (Cons c cs)
  then show ?case by (cases "split_before sep cs") (auto split: if_splits)
qed

lemma split_before_nonempty: "[] \<notin> set (split_before sep t)"
proof (induction t)
  case Nil
  show ?case by simp
next
  case (Cons c cs)
  then show ?case by (cases "split_before sep cs") auto
qed

lemma splitOnSeparator_pieces:
  "concat (splitOnSeparator t sep) = t \<and> [] \<notin> set (splitOnSeparator t sep)"
proof (cases "sep = []")
  case True
  then show ?thesis by (simp add: splitOnSeparator_chars concat_singletons) auto
next
  case False
  have "\<forall>p \<in> set (split_before sep t). p \<noteq> []" using split_before_nonempty[of sep t] by metis
  then have "filter (\<lambda>s. s \<noteq> []) (split_before sep t) = split_before sep t"
    by (simp only: filter_id_conv)
  with False show ?thesis
    using split_before_nonempty[of sep t] by (simp add: splitOnSeparator_def split_before_concat)
qed









subsection \<open>The splitter on a text that is not blank\<close>

lemma joinDocs_nonblank:
  assumes "\<exists>p \<in> set cd. nonblank p"
  shows "joinDocs cd [] \<noteq> None"
proof -
  from assms have "\<exists>c \<in> set (concat cd). \<not> is_ws c" by (auto simp: nonblank_def)
  then have "trim (concat cd) \<noteq> []" by (simp only: trim_nonblank_iff)
  then show ?thesis by (simp add: joinDocs_def join_with_empty)
qed

lemma merge_step_keeps_nonblank:
  assumes "merge_step sz ov [] (docs, cd, tot) d = (docs1, cd1, tot1)"
    and "docs \<noteq> [] \<or> (\<exists>p \<in> set cd. nonblank p) \<or> nonblank d"
  shows "docs1 \<noteq> [] \<or> (\<exists>p \<in> set cd1. nonblank p)"
proof (cases "sz < tot + length d + length cd * length ([]::string) \<and> cd \<noteq> []")
  case False
  with assms(1) have "docs1 = docs" "cd1 = cd @ [d]" by (auto simp: merge_step_def)
  with assms(2) show ?thesis by auto
next
  case True
  obtain kept tot' where pf: "pop_front sz ov (length ([]::string)) (length d) cd tot = (kept, tot')"
    by (cases "pop_front sz ov (length ([]::string)) (length d) cd tot") auto
  with True assms(1)
  have d1: "docs1 = docs @ (case joinDocs cd [] of None \<Rightarrow> [] | Some doc \<Rightarrow> [doc])"
    and c1: "cd1 = kept @ [d]"
    by (auto simp: merge_step_def)
  from assms(2) show ?thesis
  proof (elim disjE)
    assume "docs \<noteq> []" with d1 show ?thesis by simp
  next
    assume "\<exists>p \<in> set cd. nonblank p"
    from joinDocs_nonblank[OF this] d1 show ?thesis by auto
  next
    assume "nonblank d" with c1 show ?thesis by simp
  qed
qed

lemma merge_fold_keeps_nonblank:
  assumes "foldl (merge_step sz ov []) (docs, cd, tot) ps = (docs', cd', tot')"
    and "docs \<noteq> [] \<or> (\<exists>p \<in> set cd. nonblank p) \<or> (\<exists>p \<in> set ps. nonblank p)"
  shows "docs' \<noteq> [] \<or> (\<exists>p \<in> set cd'. nonblank p)"
  using assms
proof (induction ps arbitrary: docs cd tot)
  case Nil
  then show ?case by simp
next
  case (Cons d ps)
  obtain docs1 cd1 tot1 where st: "merge_step sz ov [] (docs, cd, tot) d = (docs1, cd1, tot1)"
    by (cases "merge_step sz ov [] (docs, cd, tot) d") auto
  from Cons.prems(1) st
  have f: "foldl (merge_step sz ov []) (docs1, cd1, tot1) ps = (docs', cd', tot')" by simp
  show ?case
  proof (cases "docs \<noteq> [] \<or> (\<exists>p \<in> set cd. nonblank p) \<or> nonblank d")
    case True
    from merge_step_keeps_nonblank[OF st True] Cons.IH[OF f] show ?thesis by blast
  next
    case False
    with Cons.prems(2) have "\<exists>p \<in> set ps. nonblank p" by simp
    with Cons.IH[OF f] show ?thesis by blast
  qed
qed

lemma mergeSplits_nonblank:
  assumes "\<exists>p \<in> set ps. nonblank p"
  shows "mergeSplits sz ov ps [] \<noteq> []"
proof -
  obtain docs' cd' tot' where f: "foldl (merge_step sz ov []) ([], [], 0) ps = (docs', cd', tot')"
    by (cases "foldl (merge_step sz ov []) ([], [], 0) ps") auto
  from merge_fold_keeps_nonblank[OF f] assms
  have "docs' \<noteq> [] \<or> (\<exists>p \<in> set cd'. nonblank p)" by blast
  then show ?thesis
  proof
    assume "docs' \<noteq> []" with f show ?thesis by (simp add: mergeSplits_def)
  next
    assume "\<exists>p \<in> set cd'. nonblank p"
    from joinDocs_nonblank[OF this] f show ?thesis by (auto simp: mergeSplits_def)
  qed
qed

lemma split_loop_nonblank:
  assumes "\<exists>p \<in> set (good @ ps). nonblank p"
    and "\<And>g. \<exists>p \<in> set g. nonblank p \<Longrightarrow> m g \<noteq> []"
    and "case d of None \<Rightarrow> True | Some f \<Rightarrow> (\<forall>p. nonblank p \<longrightarrow> f p \<noteq> [])"
  shows "split_loop sz m d ps good \<noteq> []"
  using assms(1)
proof (induction ps arbitrary: good)
  case Nil
  then have "good \<noteq> []" by auto
  with Nil assms(2)[of good] show ?case by simp
next
  case (Cons s ss)
  show ?case
  proof (cases "length s < sz")
    case True
    from Cons.prems have "\<exists>p \<in> set ((good @ [s]) @ ss). nonblank p" by simp
    from Cons.IH[OF this] True show ?thesis by simp
  next
    case False
    from Cons.prems
    have "(\<exists>p \<in> set good. nonblank p) \<or> nonblank s \<or> (\<exists>p \<in> set ([] @ ss). nonblank p)" by auto
    then show ?thesis
    proof (elim disjE)
      assume g: "\<exists>p \<in> set good. nonblank p"
      then have "good \<noteq> []" by auto
      with assms(2)[OF g] False show ?thesis by simp
    next
      assume s: "nonblank s"
      with assms(3) have "(case d of None \<Rightarrow> [s] | Some f \<Rightarrow> f s) \<noteq> []"
        by (cases d) simp_all
      with False show ?thesis by simp
    next
      assume "\<exists>p \<in> set ([] @ ss). nonblank p"
      from Cons.IH[OF this] False show ?thesis by simp
    qed
  qed
qed

lemma pieces_nonblank:
  assumes "nonblank t"
  shows "\<exists>p \<in> set ([] @ splitOnSeparator t sep). nonblank p"
proof -
  from assms obtain c where c: "c \<in> set t" "\<not> is_ws c" by (auto simp: nonblank_def)
  have "concat (splitOnSeparator t sep) = t" using splitOnSeparator_pieces[of t sep] by blast
  with c(1) have "c \<in> set (concat (splitOnSeparator t sep))" by simp
  then obtain p where "p \<in> set (splitOnSeparator t sep)" "c \<in> set p" by auto
  with c(2) show ?thesis by (auto simp: nonblank_def)
qed

lemma splitText_rec_nonblank:
  "nonblank t \<Longrightarrow> splitText_rec seps sz ov t \<noteq> []"
proof (induction seps arbitrary: t)
  case Nil
  have "split_loop sz (\<lambda>g. mergeSplits sz ov g []) None (splitOnSeparator t []) [] \<noteq> []"
    by (rule split_loop_nonblank[OF pieces_nonblank[OF Nil]]) (simp_all add: mergeSplits_nonblank)
  then show ?case by simp
next
  case (Cons s seps)
  have a: "split_loop sz (\<lambda>g. mergeSplits sz ov g []) None (splitOnSeparator t []) [] \<noteq> []"
    by (rule split_loop_nonblank[OF pieces_nonblank[OF Cons.prems]]) (simp_all add: mergeSplits_nonblank)
  have b: "split_loop sz (\<lambda>g. mergeSplits sz ov g []) (Some (splitText_rec seps sz ov))
             (splitOnSeparator t s) [] \<noteq> []"
    by (rule split_loop_nonblank[OF pieces_nonblank[OF Cons.prems]])
       (simp_all add: mergeSplits_nonblank Cons.IH)
  from a b Cons.IH[OF Cons.prems] show ?case by simp
qed

lemma nonblank_trim: "nonblank t \<longleftrightarrow> trim t \<noteq> []"
  by (simp only: nonblank_def trim_nonblank_iff)

subsection \<open>chunkDocument\<close>

lemma chunkDocument_Inr:
  assumes "chunkOverlap E < chunkSize E"
  shows "chunkDocument E doc =
     Inr (map (\<lambda>(index, content).
                 \<lparr>chunk_content = content,
                  chunk_metadata =
                    \<lparr>documentId = doc_id (pd_metadata doc),
                     filename = doc_filename (pd_metadata doc),
                     url = doc_url (pd_metadata doc),
                     chunkIndex = index,
                     totalChunks =
                       length (splitText_rec separators (chunkSize E) (chunkOverlap E) (pd_content doc))\<rparr>\<rparr>)
               (enumerate 0 (splitText_rec separators (chunkSize E) (chunkOverlap E) (pd_content doc))))"
  using assms by (simp add: chunkDocument_def splitText_def)








section \<open>Properties of the crawler\<close>

lemma failed_fetched_length:
  "length (fetched_documents E mds) + length (failed_documents E mds) = length mds"
  by (induction mds) (simp_all add: fetched_documents_def failed_documents_def)

lemma process_documents_fields:
  "processedDocuments (process_documents E mds c) = processedDocuments c @ fetched_documents E mds \<and>
   documentsProcessed (process_documents E mds c) = documentsProcessed c + length (fetched_documents E mds) \<and>
   documentsSkipped (process_documents E mds c) = documentsSkipped c + length (failed_documents E mds) \<and>
   map err_filename (errors (process_documents E mds c)) =
     map err_filename (errors c) @ map doc_filename (failed_documents E mds)"
proof (induction mds arbitrary: c)
  case Nil
  show ?case by (simp add: fetched_documents_def failed_documents_def)
next
  case (Cons md mds)
  show ?case
  proof (cases "fetch E md")
    case (Inl e)
    then show ?thesis
      using Cons.IH by (simp add: fetched_documents_def failed_documents_def)
  next
    case (Inr pd)
    then show ?thesis
      using Cons.IH by (simp add: fetched_documents_def failed_documents_def)
  qed
qed

lemma chunk_all_Inr:
  "chunk_all E docs = Inr docs' \<Longrightarrow>
   list_all2 (\<lambda>doc doc'. \<exists>cs. chunkDocument E doc = Inr cs \<and> doc' = doc\<lparr>pd_chunks := cs\<rparr>) docs docs'"
proof (induction docs arbitrary: docs')
  case Nil
  then show ?case by simp
next
  case (Cons doc docs)
  then show ?case by (auto split: sum.splits)
qed

lemma chunk_all_total:
  assumes "chunkOverlap E < chunkSize E"
  shows "\<exists>docs'. chunk_all E docs = Inr docs'"
proof (induction docs)
  case Nil
  show ?case by simp
next
  case (Cons doc docs)
  then obtain docs' where "chunk_all E docs = Inr docs'" by blast
  moreover from chunkDocument_Inr[OF assms, of doc] obtain cs where "chunkDocument E doc = Inr cs"
    by blast
  ultimately show ?case by simp
qed

lemma save_succeeds:
  assumes "\<not> lock_exists (disk st)" and "vectors g \<noteq> []"
  shows "fst (save no_faults g s st) = Inr () \<and>
         vectorStore (snd (save no_faults g s st)) = Some g \<and>
         stats (snd (save no_faults g s st)) = Some s \<and>
         production (disk (snd (save no_faults g s st))) =
           Some \<lparr>index_data = Some g, stats_json = Some (ValidStats s), lock_file = None\<rparr>"
  using assms
  by (cases "production (disk st)"; cases "temp (disk st)"; cases "backup (disk st)")
     (simp_all add: store_defs acquireLock_loop.simps[of _ 30 1000 0] io_defs Let_def
        split: option.splits)

lemma fetch_nonblank:
  assumes "fetch E md = Inr pd"
  shows "nonblank (pd_content pd)"
proof -
  from assms obtain raw where "pd_content pd = cleanText raw" "trim (cleanText raw) \<noteq> []"
    by (auto simp: fetch_def processDocument_def Let_def split: sum.splits if_splits)
  then show ?thesis by (simp add: nonblank_trim)
qed

lemma fetched_nonblank:
  assumes "pd \<in> set (fetched_documents E mds)"
  shows "nonblank (pd_content pd)"
proof -
  from assms obtain md where "pd = projr (fetch E md)" "\<not> isl (fetch E md)"
    by (auto simp: fetched_documents_def)
  then have "fetch E md = Inr pd" by (cases "fetch E md") simp_all
  then show ?thesis by (rule fetch_nonblank)
qed

lemma chunkDocument_nonempty:
  assumes "chunkOverlap E < chunkSize E" and "nonblank (pd_content doc)"
    and "chunkDocument E doc = Inr cs"
  shows "cs \<noteq> []"
proof -
  have "splitText_rec separators (chunkSize E) (chunkOverlap E) (pd_content doc) \<noteq> []"
    by (rule splitText_rec_nonblank[OF assms(2)])
  then show ?thesis
    using assms(3) unfolding chunkDocument_Inr[OF assms(1)]
    by (auto simp: enumerate_eq_zip)
qed

lemma all_chunks_nonempty:
  assumes "chunkOverlap E < chunkSize E"
    and "list_all2 (\<lambda>doc doc'. \<exists>cs. chunkDocument E doc = Inr cs \<and> doc' = doc\<lparr>pd_chunks := cs\<rparr>)
           docs docs'"
    and "docs \<noteq> []" and "\<forall>doc \<in> set docs. nonblank (pd_content doc)"
  shows "concat (map (\<lambda>doc. map to_Document (pd_chunks doc)) docs') \<noteq> []"
proof -
  from assms(3) obtain d ds where docs: "docs = d # ds" by (cases docs) simp_all
  with assms(2) obtain d' ds' cs where "docs' = d' # ds'" "chunkDocument E d = Inr cs"
    "d' = d\<lparr>pd_chunks := cs\<rparr>"
    by (auto simp: list_all2_Cons1)
  moreover from assms(4) docs have "nonblank (pd_content d)" by simp
  ultimately show ?thesis using chunkDocument_nonempty[OF assms(1)] by auto
qed

lemmas crawl_defs = failed_documents_def fetched_documents_def fetch_def
  processDocument_def processPDF_def processWord_def cleanText_def trim_def is_ws_def
  squeeze_def replace_cr_def replace_crlf.simps LF_def CR_def Let_def

text \<open>
  C7 as stated fails when no document of the batch can be processed. In a batch of one
  document that cannot be parsed (\<open>N = K = 1\<close>), and in an empty batch, there is no
  chunk to embed, the store built from no vector cannot be written, and the crawl ends
  with that error: nothing is reported, no index is saved, and the index directory and
  the temporary directory are left behind empty.
\<close>

theorem main_all_documents_fail_counterexample:
  "sp_initialize all_fail_env = Inr () \<and>
   listDocuments all_fail_env = Inr [md_2] \<and>
   chunkOverlap all_fail_env < chunkSize all_fail_env \<and>
   embedDocuments all_fail_env [] = Inr [] \<and>
   \<not> lock_exists absent_fs \<and>
   failed_documents all_fail_env [md_2] = [md_2] \<and>
   fst (main all_fail_env no_faults 7 absent_fs) = Inl NotInitialisedError \<and>
   vectorStore (snd (main all_fail_env no_faults 7 absent_fs)) = None \<and>
   stats (snd (main all_fail_env no_faults 7 absent_fs)) = None \<and>
   \<not> indexExists (snd (main all_fail_env no_faults 7 absent_fs)) \<and>
   disk (snd (main all_fail_env no_faults 7 absent_fs)) =
     \<lparr>production = Some empty_dir, temp = Some empty_dir, backup = None\<rparr> \<and>
   listDocuments (example_env\<lparr>listDocuments := Inr []\<rparr>) = Inr [] \<and>
   fst (main (example_env\<lparr>listDocuments := Inr []\<rparr>) no_faults 7 absent_fs) =
     Inl NotInitialisedError"
  by (simp add: main_def all_fail_env_def example_env_def md_2_def absent_fs_def lock_exists_def
      crawl_defs crawl_start_def new_Indexer_def createIndex_def fromDocuments_def
      new_VectorStore_def indexExists_def empty_dir_def
      store_defs acquireLock_loop.simps[of _ 30 1000 0] io_defs)

text \<open>
  C7, amended: take a batch of \<open>N\<close> listed documents of which \<open>K < N\<close> fail in download
  or extraction, valid chunking parameters, an embedding provider that answers with one
  vector for each text, no I/O failure and no lock file in the way. Then the crawl runs
  to the end: it reports \<open>K\<close> errors, one per failed document and in their order, \<open>K\<close>
  documents skipped and \<open>N - K\<close> processed; the generation it saves and keeps in memory
  holds exactly the chunks of the \<open>N - K\<close> processed documents, document by document in
  batch order, and at least one chunk; and the saved statistics give
  \<open>totalDocuments = N - K\<close> and the number of chunks.
\<close>

theorem main_contains_document_failures:
  assumes "sp_initialize E = Inr ()" and "listDocuments E = Inr mds"
    and "chunkOverlap E < chunkSize E"
    and "\<forall>ts. \<exists>vs. embedDocuments E ts = Inr vs \<and> length vs = length ts"
    and "\<not> lock_exists d"
    and "length (failed_documents E mds) < length mds"
  shows "\<exists>rep st g s docs'.
     main E no_faults p d = (Inr rep, st) \<and>
     length (rep_errors rep) = length (failed_documents E mds) \<and>
     map err_filename (rep_errors rep) = map doc_filename (failed_documents E mds) \<and>
     rep_documentsSkipped rep = length (failed_documents E mds) \<and>
     rep_documentsProcessed rep = length mds - length (failed_documents E mds) \<and>
     vectorStore st = Some g \<and> stats st = Some s \<and>
     production (disk st) =
       Some \<lparr>index_data = Some g, stats_json = Some (ValidStats s), lock_file = None\<rparr> \<and>
     totalDocuments s = length mds - length (failed_documents E mds) \<and>
     length docs' = length mds - length (failed_documents E mds) \<and>
     list_all2 (\<lambda>doc doc'. \<exists>cs. chunkDocument E doc = Inr cs \<and> doc' = doc\<lparr>pd_chunks := cs\<rparr>)
       (fetched_documents E mds) docs' \<and>
     docstore g = concat (map (\<lambda>doc. map to_Document (pd_chunks doc)) docs') \<and>
     docstore g \<noteq> [] \<and>
     length (vectors g) = length (docstore g) \<and>
     stats_totalChunks s = length (docstore g)"
proof -
  let ?K = "length (failed_documents E mds)"
  define c where "c = process_documents E mds crawl_start"
  have pf: "processedDocuments c = fetched_documents E mds"
    and np: "documentsProcessed c = length (fetched_documents E mds)"
    and ns: "documentsSkipped c = ?K"
    and ef: "map err_filename (errors c) = map doc_filename (failed_documents E mds)"
    using process_documents_fields[of E mds crawl_start] by (simp_all add: c_def crawl_start_def)
  have nk: "length (fetched_documents E mds) = length mds - ?K"
    using failed_fetched_length[of E mds] by simp
  with assms(6) have fne: "fetched_documents E mds \<noteq> []" by auto
  from ef have el: "length (errors c) = ?K"
    using length_map[of err_filename "errors c"] by simp
  have ix: "new_Indexer E = Inr ()" using assms(3) by (simp add: new_Indexer_def)
  obtain docs' where ca: "chunk_all E (fetched_documents E mds) = Inr docs'"
    using chunk_all_total[OF assms(3)] by blast
  note l2 = chunk_all_Inr[OF ca]
  then have ld: "length docs' = length mds - ?K" using nk by (simp add: list_all2_lengthD[symmetric])
  let ?all = "concat (map (\<lambda>doc. map to_Document (pd_chunks doc)) docs')"
  have ane: "?all \<noteq> []"
    by (rule all_chunks_nonempty[OF assms(3) l2 fne]) (simp add: fetched_nonblank)
  from assms(4) obtain vs where em: "embedDocuments E (map pageContent ?all) = Inr vs"
    and lv: "length vs = length (map pageContent ?all)" by blast
  from lv have lv': "length vs = length ?all" by (simp only: length_map)
  with ane have vne: "vs \<noteq> []" by auto
  define g where "g = \<lparr>vectors = vs, docstore = ?all\<rparr>"
  have fd: "fromDocuments E ?all = Inr g"
    unfolding fromDocuments_def em g_def using vne lv' by simp
  have ci: "createIndex E (processedDocuments c) = Inr (docs', g)"
    unfolding createIndex_def pf ca using fd by simp
  have gne: "vectors g \<noteq> []" using vne by (simp add: g_def)
  define total where "total = sum_list (map (\<lambda>doc. length (pd_chunks doc)) docs')"
  define s where "s = \<lparr>totalDocuments = documentsProcessed c, stats_totalChunks = total,
               lastUpdated = now E, indexSize = 0\<rparr>"
  define rep where "rep = \<lparr>rep_documentsProcessed = documentsProcessed c,
                rep_documentsSkipped = documentsSkipped c,
                rep_totalChunks = total,
                rep_errors = errors c\<rparr>"
  define st where "st = snd (save no_faults g s (new_VectorStore p d))"
  have "\<not> lock_exists (disk (new_VectorStore p d))" using assms(5) by (simp add: new_VectorStore_def)
  note sv = save_succeeds[OF this gne, of s]
  then have sv1: "save no_faults g s (new_VectorStore p d) = (Inr (), st)"
    by (simp add: st_def prod_eq_iff)
  have m: "main E no_faults p d = (Inr rep, st)"
    unfolding main_def
    by (simp add: assms(1,2) c_def[symmetric] ix ci Let_def total_def[symmetric] s_def[symmetric]
        sv1 rep_def)
  have tl: "total = length (docstore g)"
    by (simp add: total_def g_def length_concat comp_def)
  show ?thesis
  proof (intro exI[of _ rep] exI[of _ st] exI[of _ g] exI[of _ s] exI[of _ docs'] conjI)
    show "main E no_faults p d = (Inr rep, st)" by (rule m)
    show "length (rep_errors rep) = ?K" by (simp add: rep_def el)
    show "map err_filename (rep_errors rep) = map doc_filename (failed_documents E mds)"
      by (simp add: rep_def ef)
    show "rep_documentsSkipped rep = ?K" by (simp add: rep_def ns)
    show "rep_documentsProcessed rep = length mds - ?K" by (simp add: rep_def np nk)
    show "vectorStore st = Some g" using sv by (simp add: st_def)
    show "stats st = Some s" using sv by (simp add: st_def)
    show "production (disk st) =
       Some \<lparr>index_data = Some g, stats_json = Some (ValidStats s), lock_file = None\<rparr>"
      using sv by (simp add: st_def)
    show "totalDocuments s = length mds - ?K" by (simp add: s_def np nk)
    show "length docs' = length mds - ?K" by (rule ld)
    show "list_all2 (\<lambda>doc doc'. \<exists>cs. chunkDocument E doc = Inr cs \<and> doc' = doc\<lparr>pd_chunks := cs\<rparr>)
       (fetched_documents E mds) docs'" by (rule l2)
    show "docstore g = ?all" by (simp add: g_def)
    show "docstore g \<noteq> []" using ane by (simp add: g_def)
    show "length (vectors g) = length (docstore g)" using lv' by (simp add: g_def)
    show "stats_totalChunks s = length (docstore g)" by (simp add: s_def tl)
  qed
qed

lemma example_failed_documents: "failed_documents example_env [md_1, md_2, md_3] = [md_2]"
  by (simp add: failed_documents_def fetch_def example_env_def md_1_def md_2_def md_3_def
      processDocument_def processPDF_def processWord_def cleanText_def trim_def is_ws_def
      squeeze_def replace_cr_def LF_def CR_def Let_def)

theorem main_contains_document_failures_witness:
  "sp_initialize example_env = Inr () \<and>
   listDocuments example_env = Inr [md_1, md_2, md_3] \<and>
   chunkOverlap example_env < chunkSize example_env \<and>
   (\<forall>ts. \<exists>vs. embedDocuments example_env ts = Inr vs \<and> length vs = length ts) \<and>
   \<not> lock_exists absent_fs \<and>
   failed_documents example_env [md_1, md_2, md_3] = [md_2] \<and>
   length (failed_documents example_env [md_1, md_2, md_3]) < length [md_1, md_2, md_3] \<and>
   (\<exists>rep st g s.
      main example_env no_faults 7 absent_fs = (Inr rep, st) \<and>
      map err_filename (rep_errors rep) = [''broken.pdf''] \<and>
      rep_documentsSkipped rep = 1 \<and>
      rep_documentsProcessed rep = 2 \<and>
      vectorStore st = Some g \<and> stats st = Some s \<and>
      totalDocuments s = 2 \<and>
      docstore g \<noteq> [] \<and>
      stats_totalChunks s = length (docstore g))"
proof -
  have h1: "sp_initialize example_env = Inr ()"
    and h2: "listDocuments example_env = Inr [md_1, md_2, md_3]"
    and h3: "chunkOverlap example_env < chunkSize example_env"
    and h4: "\<forall>ts. \<exists>vs. embedDocuments example_env ts = Inr vs \<and> length vs = length ts"
    by (simp_all add: example_env_def)
  have h5: "\<not> lock_exists absent_fs" by (simp add: lock_exists_def absent_fs_def)
  have h6: "length (failed_documents example_env [md_1, md_2, md_3]) < length [md_1, md_2, md_3]"
    by (simp add: example_failed_documents)
  have n: "doc_filename md_2 = ''broken.pdf''" by (simp add: md_2_def)
  from main_contains_document_failures[OF h1 h2 h3 h4 h5 h6, of 7]
  obtain rep st g s where
    "main example_env no_faults 7 absent_fs = (Inr rep, st)"
    "map err_filename (rep_errors rep) = map doc_filename (failed_documents example_env [md_1, md_2, md_3])"
    "rep_documentsSkipped rep = length (failed_documents example_env [md_1, md_2, md_3])"
    "rep_documentsProcessed rep =
       length [md_1, md_2, md_3] - length (failed_documents example_env [md_1, md_2, md_3])"
    "vectorStore st = Some g" "stats st = Some s"
    "totalDocuments s =
       length [md_1, md_2, md_3] - length (failed_documents example_env [md_1, md_2, md_3])"
    "docstore g \<noteq> []"
    "stats_totalChunks s = length (docstore g)"
    by blast
  then have X: "main example_env no_faults 7 absent_fs = (Inr rep, st) \<and>
      map err_filename (rep_errors rep) = [''broken.pdf''] \<and>
      rep_documentsSkipped rep = 1 \<and>
      rep_documentsProcessed rep = 2 \<and>
      vectorStore st = Some g \<and> stats st = Some s \<and>
      totalDocuments s = 2 \<and>
      docstore g \<noteq> [] \<and>
      stats_totalChunks s = length (docstore g)"
    by (simp add: example_failed_documents n)
  have "\<exists>rep st g s.
      main example_env no_faults 7 absent_fs = (Inr rep, st) \<and>
      map err_filename (rep_errors rep) = [''broken.pdf''] \<and>
      rep_documentsSkipped rep = 1 \<and>
      rep_documentsProcessed rep = 2 \<and>
      vectorStore st = Some g \<and> stats st = Some s \<and>
      totalDocuments s = 2 \<and>
      docstore g \<noteq> [] \<and>
      stats_totalChunks s = length (docstore g)"
    by (rule exI[of _ rep], rule exI[of _ st], rule exI[of _ g], rule exI[of _ s], rule X)
  with h1 h2 h3 h4 h5 h6 example_failed_documents show ?thesis by blast
qed

end
